theory Spec2Isabelle
  imports Main "HOL-Library.Word"
begin

section \<open>Go values\<close>

text \<open>
  A Go string is read as its sequence of Unicode code points (runes): the three library
  routines the program applies to text, \<^verbatim>\<open>strings.ToLower\<close>, \<^verbatim>\<open>strings.TrimSpace\<close> and
  \<^verbatim>\<open>regexp.MatchString\<close>, all work rune by rune. \<open>len\<close> is Go's \<^verbatim>\<open>len\<close>: the number of
  bytes of the UTF-8 encoding. Go's \<^verbatim>\<open>int\<close> is the 64-bit machine integer of the platforms
  the service is built for. Identifiers and instants are opaque values that are only
  stored, copied and compared.
\<close>

type_synonym rune = nat
type_synonym gostring = "rune list"
type_synonym uuid = nat
type_synonym time = nat
type_synonym go_int = "64 word"
type_synonym int64 = "64 word"
type_synonym int32 = "32 word"

definition S :: "string \<Rightarrow> gostring" where
  "S s = map of_char s"

definition RuneLen :: "rune \<Rightarrow> nat" where
  "RuneLen r = (if r < 0x80 then 1 else if r < 0x800 then 2 else if r < 0x10000 then 3 else 4)"

definition len :: "gostring \<Rightarrow> nat" where
  "len s = sum_list (map RuneLen s)"

subsection \<open>Errors\<close>

text \<open>
  The sentinel errors of \<^verbatim>\<open>domain/errors.go\<close> and \<^verbatim>\<open>pgx.ErrNoRows\<close> are constants; an error
  made on the spot by \<^verbatim>\<open>errors.New\<close> carries its text; \<^verbatim>\<open>fmt.Errorf\<close> with a \<^verbatim>\<open>%w\<close> verb
  carries the formatted text and the error it wraps; \<open>PgError\<close> is the store's error
  (message and SQLSTATE code).
\<close>

datatype goerr =
    ErrUserNotFound
  | ErrEmailAlreadyExists
  | ErrInvalidEmail
  | ErrInvalidPassword
  | ErrUserInactive
  | ErrUnauthorized
  | ErrNoRows
  | errors_New string
  | fmt_Errorf string goerr
  | PgError string string

fun Error :: "goerr \<Rightarrow> string" where
  "Error ErrUserNotFound = ''user not found''"
| "Error ErrEmailAlreadyExists = ''email already exists''"
| "Error ErrInvalidEmail = ''invalid email format''"
| "Error ErrInvalidPassword = ''invalid password''"
| "Error ErrUserInactive = ''user is inactive''"
| "Error ErrUnauthorized = ''unauthorized''"
| "Error ErrNoRows = ''no rows in result set''"
| "Error (errors_New msg) = msg"
| "Error (fmt_Errorf msg err) = msg"
| "Error (PgError msg code) = ''ERROR: '' @ msg @ '' (SQLSTATE '' @ code @ '')''"

text \<open>\<^verbatim>\<open>fmt.Errorf(prefix + "%w", err)\<close>: the text is the prefix followed by the wrapped
  error's text.\<close>

definition wrapf :: "string \<Rightarrow> goerr \<Rightarrow> goerr" where
  "wrapf prefix err = fmt_Errorf (prefix @ Error err) err"

text \<open>\<^verbatim>\<open>errors.Is\<close>: walks the chain of wrapped errors looking for the target.\<close>

fun errors_Is :: "goerr \<Rightarrow> goerr \<Rightarrow> bool" where
  "errors_Is (fmt_Errorf msg err) target =
     (fmt_Errorf msg err = target \<or> errors_Is err target)"
| "errors_Is err target = (err = target)"

section \<open>Domain: the Email value object (domain/user.go)\<close>

text \<open>
  \<^verbatim>\<open>unicode.ToLower\<close> handles ASCII itself and looks every other rune up in the Unicode case
  tables; the table lookup \<^verbatim>\<open>unicode.To(unicode.LowerCase, r)\<close> is the parameter \<open>tbl\<close>.
\<close>

definition unicode_ToLower :: "(rune \<Rightarrow> rune) \<Rightarrow> rune \<Rightarrow> rune" where
  "unicode_ToLower tbl r =
     (if r \<le> 0x7F then (if 0x41 \<le> r \<and> r \<le> 0x5A then r + 0x20 else r) else tbl r)"

definition strings_ToLower :: "(rune \<Rightarrow> rune) \<Rightarrow> gostring \<Rightarrow> gostring" where
  "strings_ToLower tbl s = map (unicode_ToLower tbl) s"

text \<open>\<^verbatim>\<open>unicode.IsSpace\<close>: the runes with the White_Space property.\<close>

definition unicode_IsSpace :: "rune \<Rightarrow> bool" where
  "unicode_IsSpace r =
     ((0x09 \<le> r \<and> r \<le> 0x0D) \<or> r = 0x20 \<or> r = 0x85 \<or> r = 0xA0 \<or> r = 0x1680
      \<or> (0x2000 \<le> r \<and> r \<le> 0x200A) \<or> r = 0x2028 \<or> r = 0x2029 \<or> r = 0x202F
      \<or> r = 0x205F \<or> r = 0x3000)"

definition strings_TrimSpace :: "gostring \<Rightarrow> gostring" where
  "strings_TrimSpace s = rev (dropWhile unicode_IsSpace (rev (dropWhile unicode_IsSpace s)))"

text \<open>
  The character classes of
  \<^verbatim>\<open>^[a-zA-Z0-9._%+\-]+@[a-zA-Z0-9.\-]+\.[a-zA-Z]{2,}$\<close>.
\<close>

definition is_alpha :: "rune \<Rightarrow> bool" where
  "is_alpha r = ((0x61 \<le> r \<and> r \<le> 0x7A) \<or> (0x41 \<le> r \<and> r \<le> 0x5A))"

definition is_alnum :: "rune \<Rightarrow> bool" where
  "is_alnum r = (is_alpha r \<or> (0x30 \<le> r \<and> r \<le> 0x39))"

definition local_class :: "rune \<Rightarrow> bool" where
  "local_class r = (is_alnum r \<or> r = 0x2E \<or> r = 0x5F \<or> r = 0x25 \<or> r = 0x2B \<or> r = 0x2D)"

definition domain_class :: "rune \<Rightarrow> bool" where
  "domain_class r = (is_alnum r \<or> r = 0x2E \<or> r = 0x2D)"

text \<open>
  The matcher. No class contains \<open>@\<close>, so the local part ends at the first \<open>@\<close>; the last
  group is letters only, so it starts after the last dot.
\<close>

definition emailRegex_MatchString :: "gostring \<Rightarrow> bool" where
  "emailRegex_MatchString s =
     (let local = takeWhile (\<lambda>r. r \<noteq> 0x40) s;
          rest = drop (Suc (length local)) s;
          tld = rev (takeWhile (\<lambda>r. r \<noteq> 0x2E) (rev rest));
          dom = take (length rest - Suc (length tld)) rest
      in length local < length s \<and> local \<noteq> [] \<and> list_all local_class local
         \<and> length tld < length rest \<and> dom \<noteq> [] \<and> list_all domain_class dom
         \<and> 2 \<le> length tld \<and> list_all is_alpha tld)"

datatype Email = EmailVO (Value: gostring)

definition NewEmail :: "(rune \<Rightarrow> rune) \<Rightarrow> gostring \<Rightarrow> goerr + Email" where
  "NewEmail tbl email =
     (let email = strings_TrimSpace (strings_ToLower tbl email)
      in if email = [] then Inl ErrInvalidEmail
         else if \<not> emailRegex_MatchString email then Inl ErrInvalidEmail
         else Inr (EmailVO email))"

section \<open>Domain: the User entity (domain/user.go)\<close>

record User =
  ID :: uuid
  Email :: Email
  Name :: gostring
  PasswordHash :: gostring
  IsActive :: bool
  CreatedAt :: time
  UpdatedAt :: time

text \<open>\<open>now\<close> is what \<^verbatim>\<open>time.Now()\<close> returns, \<open>newid\<close> what \<^verbatim>\<open>uuid.New()\<close> returns.\<close>

definition NewUser :: "time \<Rightarrow> uuid \<Rightarrow> Email \<Rightarrow> gostring \<Rightarrow> gostring \<Rightarrow> goerr + User" where
  "NewUser now newid email name passwordHash =
     (if name = [] then Inl (errors_New ''name cannot be empty'')
      else if passwordHash = [] then Inl (errors_New ''password hash cannot be empty'')
      else Inr \<lparr>ID = newid, Email = email, Name = name, PasswordHash = passwordHash,
                IsActive = True, CreatedAt = now, UpdatedAt = now\<rparr>)"

definition UpdateProfile :: "time \<Rightarrow> User \<Rightarrow> gostring \<Rightarrow> Email \<Rightarrow> goerr + User" where
  "UpdateProfile now u name email =
     (if name = [] then Inl (errors_New ''name cannot be empty'')
      else Inr (u\<lparr>Name := name, Email := email, UpdatedAt := now\<rparr>))"

definition Deactivate :: "time \<Rightarrow> User \<Rightarrow> User" where
  "Deactivate now u = u\<lparr>IsActive := False, UpdatedAt := now\<rparr>"

definition Activate :: "time \<Rightarrow> User \<Rightarrow> User" where
  "Activate now u = u\<lparr>IsActive := True, UpdatedAt := now\<rparr>"

definition User_ChangePassword :: "time \<Rightarrow> User \<Rightarrow> gostring \<Rightarrow> goerr + User" where
  "User_ChangePassword now u passwordHash =
     (if passwordHash = [] then Inl (errors_New ''password hash cannot be empty'')
      else Inr (u\<lparr>PasswordHash := passwordHash, UpdatedAt := now\<rparr>))"

section \<open>Application: data transfer objects (application/dto.go)\<close>

record CreateUserDTO =
  create_Email :: gostring
  create_Name :: gostring
  create_Password :: gostring

record UpdateUserDTO =
  update_Name :: gostring
  update_Email :: gostring

record ChangePasswordDTO =
  OldPassword :: gostring
  NewPassword :: gostring

record UserResponseDTO =
  dto_ID :: uuid
  dto_Email :: gostring
  dto_Name :: gostring
  dto_IsActive :: bool
  dto_CreatedAt :: time
  dto_UpdatedAt :: time

record UserListResponseDTO =
  Users :: "UserResponseDTO list"
  Total :: int64
  Limit :: go_int
  Offset :: go_int
  HasMore :: bool

definition toUserResponseDTO :: "User \<Rightarrow> UserResponseDTO" where
  "toUserResponseDTO user =
     \<lparr>dto_ID = ID user, dto_Email = Value (Email user), dto_Name = Name user,
      dto_IsActive = IsActive user, dto_CreatedAt = CreatedAt user,
      dto_UpdatedAt = UpdatedAt user\<rparr>"

section \<open>Domain: the repository contract (domain/repository.go)\<close>

text \<open>
  The interface \<^verbatim>\<open>UserRepository\<close>, over a store of type \<open>'s\<close>. The three writing methods
  return the store they leave behind. A lookup returns either an error or a user.
\<close>

record 's UserRepository =
  Save :: "'s \<Rightarrow> User \<Rightarrow> goerr option \<times> 's"
  FindByID :: "'s \<Rightarrow> uuid \<Rightarrow> goerr + User"
  FindByEmail :: "'s \<Rightarrow> Email \<Rightarrow> goerr + User"
  Update :: "'s \<Rightarrow> User \<Rightarrow> goerr option \<times> 's"
  Delete :: "'s \<Rightarrow> uuid \<Rightarrow> goerr option \<times> 's"
  List :: "'s \<Rightarrow> go_int \<Rightarrow> go_int \<Rightarrow> goerr + User list"
  Count :: "'s \<Rightarrow> goerr + int64"

section \<open>Application: the user service (application/service.go)\<close>

text \<open>
  What one call of the service draws from outside the program: the Unicode case table, the
  clock, the identifier generator and the two bcrypt routines.
\<close>

record env =
  To_LowerCase :: "rune \<Rightarrow> rune"
  time_Now :: time
  uuid_New :: uuid
  bcrypt_GenerateFromPassword :: "gostring \<Rightarrow> goerr + gostring"
  bcrypt_CompareHashAndPassword :: "gostring \<Rightarrow> gostring \<Rightarrow> goerr option"

definition validatePassword :: "gostring \<Rightarrow> goerr option" where
  "validatePassword password =
     (if len password < 8 then Some (errors_New ''password must be at least 8 characters'')
      else None)"

definition validateCreateUserInput :: "CreateUserDTO \<Rightarrow> goerr option" where
  "validateCreateUserInput dto =
     (if create_Email dto = [] then Some (errors_New ''email is required'')
      else if create_Name dto = [] then Some (errors_New ''name is required'')
      else if create_Password dto = [] then Some (errors_New ''password is required'')
      else validatePassword (create_Password dto))"

definition hashPassword :: "env \<Rightarrow> gostring \<Rightarrow> goerr + gostring" where
  "hashPassword env password =
     (case bcrypt_GenerateFromPassword env password of
        Inl err \<Rightarrow> Inl err
      | Inr hash \<Rightarrow> Inr hash)"

definition verifyPassword :: "env \<Rightarrow> gostring \<Rightarrow> gostring \<Rightarrow> goerr option" where
  "verifyPassword env hash password = bcrypt_CompareHashAndPassword env hash password"

definition CreateUser ::
  "env \<Rightarrow> 's UserRepository \<Rightarrow> 's \<Rightarrow> CreateUserDTO \<Rightarrow> (goerr + UserResponseDTO) \<times> 's" where
  "CreateUser env repo s dto =
     (case validateCreateUserInput dto of
        Some err \<Rightarrow> (Inl err, s)
      | None \<Rightarrow>
     (case NewEmail (To_LowerCase env) (create_Email dto) of
        Inl err \<Rightarrow> (Inl err, s)
      | Inr email \<Rightarrow>
     (case FindByEmail repo s email of
        Inr existingUser \<Rightarrow> (Inl ErrEmailAlreadyExists, s)
      | Inl err \<Rightarrow>
          if \<not> errors_Is err ErrUserNotFound
          then (Inl (wrapf ''failed to check email existence: '' err), s)
          else
     (case hashPassword env (create_Password dto) of
        Inl err \<Rightarrow> (Inl (wrapf ''failed to hash password: '' err), s)
      | Inr passwordHash \<Rightarrow>
     (case NewUser (time_Now env) (uuid_New env) email (create_Name dto) passwordHash of
        Inl err \<Rightarrow> (Inl (wrapf ''failed to create user entity: '' err), s)
      | Inr user \<Rightarrow>
     (case Save repo s user of
        (Some err, s') \<Rightarrow> (Inl (wrapf ''failed to save user: '' err), s')
      | (None, s') \<Rightarrow> (Inr (toUserResponseDTO user), s')))))))"

definition GetUser :: "'s UserRepository \<Rightarrow> 's \<Rightarrow> uuid \<Rightarrow> goerr + UserResponseDTO" where
  "GetUser repo s uid =
     (case FindByID repo s uid of
        Inl err \<Rightarrow> Inl err
      | Inr user \<Rightarrow> Inr (toUserResponseDTO user))"

definition GetUserByEmail ::
  "env \<Rightarrow> 's UserRepository \<Rightarrow> 's \<Rightarrow> gostring \<Rightarrow> goerr + UserResponseDTO" where
  "GetUserByEmail env repo s email =
     (case NewEmail (To_LowerCase env) email of
        Inl err \<Rightarrow> Inl err
      | Inr emailVO \<Rightarrow>
     (case FindByEmail repo s emailVO of
        Inl err \<Rightarrow> Inl err
      | Inr user \<Rightarrow> Inr (toUserResponseDTO user)))"

definition UpdateUser ::
  "env \<Rightarrow> 's UserRepository \<Rightarrow> 's \<Rightarrow> uuid \<Rightarrow> UpdateUserDTO \<Rightarrow> (goerr + UserResponseDTO) \<times> 's"
  where
  "UpdateUser env repo s uid dto =
     (case FindByID repo s uid of
        Inl err \<Rightarrow> (Inl err, s)
      | Inr user \<Rightarrow>
          if update_Name dto = [] then (Inl (errors_New ''name cannot be empty''), s)
          else
     (case NewEmail (To_LowerCase env) (update_Email dto) of
        Inl err \<Rightarrow> (Inl err, s)
      | Inr newEmail \<Rightarrow>
     (case (if Value newEmail \<noteq> Value (Email user)
            then (case FindByEmail repo s newEmail of
                    Inl err \<Rightarrow>
                      if \<not> errors_Is err ErrUserNotFound
                      then Some (wrapf ''failed to check email existence: '' err)
                      else None
                  | Inr existingUser \<Rightarrow>
                      if ID existingUser \<noteq> ID user then Some ErrEmailAlreadyExists
                      else None)
            else None) of
        Some err \<Rightarrow> (Inl err, s)
      | None \<Rightarrow>
     (case UpdateProfile (time_Now env) user (update_Name dto) newEmail of
        Inl err \<Rightarrow> (Inl err, s)
      | Inr user' \<Rightarrow>
     (case Update repo s user' of
        (Some err, s') \<Rightarrow> (Inl (wrapf ''failed to update user: '' err), s')
      | (None, s') \<Rightarrow> (Inr (toUserResponseDTO user'), s'))))))"

definition DeleteUser :: "'s UserRepository \<Rightarrow> 's \<Rightarrow> uuid \<Rightarrow> goerr option \<times> 's" where
  "DeleteUser repo s uid = Delete repo s uid"

definition ActivateUser ::
  "env \<Rightarrow> 's UserRepository \<Rightarrow> 's \<Rightarrow> uuid \<Rightarrow> (goerr + UserResponseDTO) \<times> 's" where
  "ActivateUser env repo s uid =
     (case FindByID repo s uid of
        Inl err \<Rightarrow> (Inl err, s)
      | Inr user \<Rightarrow>
     (let user = Activate (time_Now env) user
      in case Update repo s user of
           (Some err, s') \<Rightarrow> (Inl (wrapf ''failed to activate user: '' err), s')
         | (None, s') \<Rightarrow> (Inr (toUserResponseDTO user), s')))"

definition DeactivateUser ::
  "env \<Rightarrow> 's UserRepository \<Rightarrow> 's \<Rightarrow> uuid \<Rightarrow> (goerr + UserResponseDTO) \<times> 's" where
  "DeactivateUser env repo s uid =
     (case FindByID repo s uid of
        Inl err \<Rightarrow> (Inl err, s)
      | Inr user \<Rightarrow>
     (let user = Deactivate (time_Now env) user
      in case Update repo s user of
           (Some err, s') \<Rightarrow> (Inl (wrapf ''failed to deactivate user: '' err), s')
         | (None, s') \<Rightarrow> (Inr (toUserResponseDTO user), s')))"

definition ChangePassword ::
  "env \<Rightarrow> 's UserRepository \<Rightarrow> 's \<Rightarrow> uuid \<Rightarrow> ChangePasswordDTO \<Rightarrow> goerr option \<times> 's" where
  "ChangePassword env repo s uid dto =
     (case FindByID repo s uid of
        Inl err \<Rightarrow> (Some err, s)
      | Inr user \<Rightarrow>
     (case verifyPassword env (PasswordHash user) (OldPassword dto) of
        Some err \<Rightarrow> (Some ErrInvalidPassword, s)
      | None \<Rightarrow>
     (case validatePassword (NewPassword dto) of
        Some err \<Rightarrow> (Some err, s)
      | None \<Rightarrow>
     (case hashPassword env (NewPassword dto) of
        Inl err \<Rightarrow> (Some (wrapf ''failed to hash password: '' err), s)
      | Inr newPasswordHash \<Rightarrow>
     (case User_ChangePassword (time_Now env) user newPasswordHash of
        Inl err \<Rightarrow> (Some err, s)
      | Inr user' \<Rightarrow>
     (case Update repo s user' of
        (Some err, s') \<Rightarrow> (Some (wrapf ''failed to update password: '' err), s')
      | (None, s') \<Rightarrow> (None, s')))))))"

text \<open>
  \<open>limit\<close> and \<open>offset\<close> are Go \<^verbatim>\<open>int\<close>s: comparisons are signed, and \<^verbatim>\<open>offset+limit\<close> is
  machine addition, which wraps around.
\<close>

definition ListUsers ::
  "'s UserRepository \<Rightarrow> 's \<Rightarrow> go_int \<Rightarrow> go_int \<Rightarrow> goerr + UserListResponseDTO" where
  "ListUsers repo s limit offset =
     (let limit = (if sint limit \<le> 0 then 10 else limit);
          limit = (if sint limit > 100 then 100 else limit);
          offset = (if sint offset < 0 then 0 else offset)
      in case List repo s limit offset of
           Inl err \<Rightarrow> Inl (wrapf ''failed to list users: '' err)
         | Inr users \<Rightarrow>
        (case Count repo s of
           Inl err \<Rightarrow> Inl (wrapf ''failed to count users: '' err)
         | Inr totalCount \<Rightarrow>
             Inr \<lparr>Users = map toUserResponseDTO users, Total = totalCount, Limit = limit,
                  Offset = offset, HasMore = (sint (offset + limit) < sint totalCount)\<rparr>))"

section \<open>Infrastructure: the users table and its queries\<close>

text \<open>
  The table of the migration:
  \<^verbatim>\<open>id UUID PRIMARY KEY, email VARCHAR(255) UNIQUE NOT NULL, name VARCHAR(100) NOT NULL,
  password_hash VARCHAR(255) NOT NULL, is_active BOOLEAN, created_at, updated_at TIMESTAMP\<close>.
  A table is the list of its rows in insertion order.
\<close>

record users_row =
  row_id :: uuid
  email :: gostring
  name :: gostring
  password_hash :: gostring
  is_active :: bool
  created_at :: time
  updated_at :: time

type_synonym users_table = "users_row list"

text \<open>
  Storing a string in a \<^verbatim>\<open>VARCHAR(n)\<close> column: a longer value is an error, unless the
  characters beyond \<open>n\<close> are all spaces, which are cut off.
\<close>

definition pg_varchar :: "nat \<Rightarrow> string \<Rightarrow> gostring \<Rightarrow> goerr + gostring" where
  "pg_varchar n ty v =
     (if length v \<le> n then Inr v
      else if list_all (\<lambda>r. r = 0x20) (drop n v) then Inr (take n v)
      else Inl (PgError (''value too long for type '' @ ty) ''22001''))"

definition unique_violation :: "string \<Rightarrow> goerr" where
  \<open>unique_violation constraint =
     PgError (''duplicate key value violates unique constraint "'' @ constraint @ ''"'') ''23505''\<close>

text \<open>
  \<^verbatim>\<open>-- name: CreateUser :one  INSERT INTO users (...) VALUES ($1, ..., $7) RETURNING *\<close>.
  The primary key and the UNIQUE constraint on \<open>email\<close> range over every row of the table.
\<close>

definition sqlc_CreateUser :: "users_table \<Rightarrow> users_row \<Rightarrow> (goerr + users_row) \<times> users_table"
  where
  "sqlc_CreateUser db arg =
     (case pg_varchar 255 ''character varying(255)'' (email arg) of
        Inl err \<Rightarrow> (Inl err, db)
      | Inr e \<Rightarrow>
     (case pg_varchar 100 ''character varying(100)'' (name arg) of
        Inl err \<Rightarrow> (Inl err, db)
      | Inr n \<Rightarrow>
     (case pg_varchar 255 ''character varying(255)'' (password_hash arg) of
        Inl err \<Rightarrow> (Inl err, db)
      | Inr h \<Rightarrow>
     (let r = arg\<lparr>email := e, name := n, password_hash := h\<rparr>
      in if list_ex (\<lambda>x. row_id x = row_id r) db
         then (Inl (unique_violation ''users_pkey''), db)
         else if list_ex (\<lambda>x. email x = email r) db
         then (Inl (unique_violation ''users_email_key''), db)
         else (Inr r, db @ [r])))))"

text \<open>\<^verbatim>\<open>-- name: GetUserByID :one  SELECT * FROM users WHERE id = $1 AND is_active = true LIMIT 1\<close>\<close>

definition sqlc_GetUserByID :: "users_table \<Rightarrow> uuid \<Rightarrow> goerr + users_row" where
  "sqlc_GetUserByID db uid =
     (case filter (\<lambda>r. row_id r = uid \<and> is_active r) db of
        [] \<Rightarrow> Inl ErrNoRows
      | r # _ \<Rightarrow> Inr r)"

text \<open>\<^verbatim>\<open>-- name: GetUserByEmail :one  SELECT * FROM users WHERE email = $1 AND is_active = true LIMIT 1\<close>\<close>

definition sqlc_GetUserByEmail :: "users_table \<Rightarrow> gostring \<Rightarrow> goerr + users_row" where
  "sqlc_GetUserByEmail db e =
     (case filter (\<lambda>r. email r = e \<and> is_active r) db of
        [] \<Rightarrow> Inl ErrNoRows
      | r # _ \<Rightarrow> Inr r)"

text \<open>
  \<^verbatim>\<open>-- name: UpdateUser :one  UPDATE users SET email = $2, name = $3, password_hash = $4,
  is_active = $5, updated_at = $6 WHERE id = $1 RETURNING *\<close>
\<close>

definition sqlc_UpdateUser ::
  "users_table \<Rightarrow> uuid \<Rightarrow> gostring \<Rightarrow> gostring \<Rightarrow> gostring \<Rightarrow> bool \<Rightarrow> time
     \<Rightarrow> (goerr + users_row) \<times> users_table" where
  "sqlc_UpdateUser db uid e' n' h' a' t' =
     (case filter (\<lambda>r. row_id r = uid) db of
        [] \<Rightarrow> (Inl ErrNoRows, db)
      | old # _ \<Rightarrow>
     (case pg_varchar 255 ''character varying(255)'' e' of
        Inl err \<Rightarrow> (Inl err, db)
      | Inr e \<Rightarrow>
     (case pg_varchar 100 ''character varying(100)'' n' of
        Inl err \<Rightarrow> (Inl err, db)
      | Inr n \<Rightarrow>
     (case pg_varchar 255 ''character varying(255)'' h' of
        Inl err \<Rightarrow> (Inl err, db)
      | Inr h \<Rightarrow>
     (let set_row = (\<lambda>r. r\<lparr>email := e, name := n, password_hash := h, is_active := a',
                            updated_at := t'\<rparr>)
      in if list_ex (\<lambda>x. row_id x \<noteq> uid \<and> email x = e) db
         then (Inl (unique_violation ''users_email_key''), db)
         else (Inr (set_row old),
               map (\<lambda>r. if row_id r = uid then set_row r else r) db))))))"

text \<open>
  \<^verbatim>\<open>-- name: DeleteUser :exec  UPDATE users SET is_active = false, updated_at = $2 WHERE id = $1\<close>.
  An \<^verbatim>\<open>:exec\<close> query runs the statement and returns only its error; an UPDATE that matches
  no row is not an error.
\<close>

definition sqlc_DeleteUser :: "users_table \<Rightarrow> uuid \<Rightarrow> time \<Rightarrow> goerr option \<times> users_table" where
  "sqlc_DeleteUser db uid t' =
     (None, map (\<lambda>r. if row_id r = uid then r\<lparr>is_active := False, updated_at := t'\<rparr> else r) db)"

text \<open>
  \<^verbatim>\<open>-- name: ListUsers :many  SELECT * FROM users WHERE is_active = true
  ORDER BY created_at DESC LIMIT $1 OFFSET $2\<close>, with 32-bit parameters. The store
  rejects a negative OFFSET or LIMIT. Rows created at the same instant come in reverse
  insertion order.
\<close>

definition sqlc_ListUsers :: "users_table \<Rightarrow> int32 \<Rightarrow> int32 \<Rightarrow> goerr + users_row list" where
  "sqlc_ListUsers db lim off =
     (if sint off < 0 then Inl (PgError ''OFFSET must not be negative'' ''2201X'')
      else if sint lim < 0 then Inl (PgError ''LIMIT must not be negative'' ''2201W'')
      else Inr (take (nat (sint lim)) (drop (nat (sint off))
                  (rev (sort_key created_at (filter is_active db))))))"

text \<open>\<^verbatim>\<open>-- name: CountUsers :one  SELECT COUNT(*) FROM users WHERE is_active = true\<close>\<close>

definition sqlc_CountUsers :: "users_table \<Rightarrow> goerr + int64" where
  "sqlc_CountUsers db = Inr (of_nat (length (filter is_active db)))"

section \<open>Infrastructure: the repository over the table (persistence)\<close>

function findSubstring_from :: "nat \<Rightarrow> string \<Rightarrow> string \<Rightarrow> bool" where
  "findSubstring_from i s substr =
     (if i + length substr \<le> length s
      then (if take (length substr) (drop i s) = substr then True
            else findSubstring_from (i + 1) s substr)
      else False)"
  by pat_completeness auto
termination
  by (relation "measure (\<lambda>(i, s, substr). Suc (length s) - i)") auto

declare findSubstring_from.simps [simp del]

definition findSubstring :: "string \<Rightarrow> string \<Rightarrow> bool" where
  "findSubstring s substr = findSubstring_from 0 s substr"

definition contains :: "string \<Rightarrow> string \<Rightarrow> bool" where
  "contains s substr =
     (length s \<ge> length substr \<and>
      (s = substr \<or> length s > length substr \<and>
        (take (length substr) s = substr \<or> drop (length s - length substr) s = substr \<or>
         length s > length substr + 1 \<and> findSubstring s substr)))"

definition isUniqueViolation :: "goerr \<Rightarrow> bool" where
  "isUniqueViolation err =
     (Error err = ''ERROR: duplicate key value violates unique constraint (SQLSTATE 23505)''
      \<or> contains (Error err) ''unique constraint''
      \<or> contains (Error err) ''duplicate key'')"

definition toDomainUser :: "(rune \<Rightarrow> rune) \<Rightarrow> users_row \<Rightarrow> goerr + User" where
  "toDomainUser tbl sqlcUser =
     (case NewEmail tbl (email sqlcUser) of
        Inl err \<Rightarrow> Inl (wrapf ''invalid email in database: '' err)
      | Inr e \<Rightarrow>
          Inr \<lparr>ID = row_id sqlcUser, Email = e, Name = name sqlcUser,
               PasswordHash = password_hash sqlcUser, IsActive = is_active sqlcUser,
               CreatedAt = created_at sqlcUser, UpdatedAt = updated_at sqlcUser\<rparr>)"

definition UserRepository_Save :: "users_table \<Rightarrow> User \<Rightarrow> goerr option \<times> users_table" where
  "UserRepository_Save db user =
     (case sqlc_CreateUser db
             \<lparr>row_id = ID user, email = Value (Email user), name = Name user,
              password_hash = PasswordHash user, is_active = IsActive user,
              created_at = CreatedAt user, updated_at = UpdatedAt user\<rparr> of
        (Inl err, db') \<Rightarrow>
          if isUniqueViolation err then (Some ErrEmailAlreadyExists, db')
          else (Some (wrapf ''failed to create user: '' err), db')
      | (Inr _, db') \<Rightarrow> (None, db'))"

definition UserRepository_FindByID :: "(rune \<Rightarrow> rune) \<Rightarrow> users_table \<Rightarrow> uuid \<Rightarrow> goerr + User"
  where
  "UserRepository_FindByID tbl db uid =
     (case sqlc_GetUserByID db uid of
        Inl err \<Rightarrow>
          if errors_Is err ErrNoRows then Inl ErrUserNotFound
          else Inl (wrapf ''failed to get user by ID: '' err)
      | Inr sqlcUser \<Rightarrow> toDomainUser tbl sqlcUser)"

definition UserRepository_FindByEmail ::
  "(rune \<Rightarrow> rune) \<Rightarrow> users_table \<Rightarrow> Email \<Rightarrow> goerr + User" where
  "UserRepository_FindByEmail tbl db e =
     (case sqlc_GetUserByEmail db (Value e) of
        Inl err \<Rightarrow>
          if errors_Is err ErrNoRows then Inl ErrUserNotFound
          else Inl (wrapf ''failed to get user by email: '' err)
      | Inr sqlcUser \<Rightarrow> toDomainUser tbl sqlcUser)"

definition UserRepository_Update :: "users_table \<Rightarrow> User \<Rightarrow> goerr option \<times> users_table" where
  "UserRepository_Update db user =
     (case sqlc_UpdateUser db (ID user) (Value (Email user)) (Name user) (PasswordHash user)
             (IsActive user) (UpdatedAt user) of
        (Inl err, db') \<Rightarrow>
          if errors_Is err ErrNoRows then (Some ErrUserNotFound, db')
          else if isUniqueViolation err then (Some ErrEmailAlreadyExists, db')
          else (Some (wrapf ''failed to update user: '' err), db')
      | (Inr _, db') \<Rightarrow> (None, db'))"

definition UserRepository_Delete :: "time \<Rightarrow> users_table \<Rightarrow> uuid \<Rightarrow> goerr option \<times> users_table"
  where
  "UserRepository_Delete now db uid =
     (case sqlc_DeleteUser db uid now of
        (Some err, db') \<Rightarrow>
          if errors_Is err ErrNoRows then (Some ErrUserNotFound, db')
          else (Some (wrapf ''failed to delete user: '' err), db')
      | (None, db') \<Rightarrow> (None, db'))"

text \<open>Decimal digits of an index, for the \<^verbatim>\<open>%d\<close> verb.\<close>

function itoa :: "nat \<Rightarrow> string" where
  "itoa n = (if n < 10 then [char_of (48 + n)] else itoa (n div 10) @ [char_of (48 + n mod 10)])"
  by pat_completeness auto
termination
  by (relation "measure (\<lambda>n. n)") auto

declare itoa.simps [simp del]

fun mapUsers :: "(rune \<Rightarrow> rune) \<Rightarrow> nat \<Rightarrow> users_row list \<Rightarrow> goerr + User list" where
  "mapUsers tbl i [] = Inr []"
| "mapUsers tbl i (sqlcUser # rest) =
     (case toDomainUser tbl sqlcUser of
        Inl err \<Rightarrow> Inl (wrapf (''failed to map user at index '' @ itoa i @ '': '') err)
      | Inr user \<Rightarrow>
     (case mapUsers tbl (Suc i) rest of
        Inl err \<Rightarrow> Inl err
      | Inr users \<Rightarrow> Inr (user # users)))"

text \<open>\<^verbatim>\<open>int32(limit)\<close> and \<^verbatim>\<open>int32(offset)\<close> keep the low 32 bits.\<close>

definition UserRepository_List ::
  "(rune \<Rightarrow> rune) \<Rightarrow> users_table \<Rightarrow> go_int \<Rightarrow> go_int \<Rightarrow> goerr + User list" where
  "UserRepository_List tbl db limit offset =
     (case sqlc_ListUsers db (ucast limit) (ucast offset) of
        Inl err \<Rightarrow> Inl (wrapf ''failed to list users: '' err)
      | Inr sqlcUsers \<Rightarrow> mapUsers tbl 0 sqlcUsers)"

definition UserRepository_Count :: "users_table \<Rightarrow> goerr + int64" where
  "UserRepository_Count db =
     (case sqlc_CountUsers db of
        Inl err \<Rightarrow> Inl (wrapf ''failed to count users: '' err)
      | Inr n \<Rightarrow> Inr n)"

definition NewUserRepository :: "env \<Rightarrow> users_table UserRepository" where
  "NewUserRepository env =
     \<lparr>Save = UserRepository_Save,
      FindByID = UserRepository_FindByID (To_LowerCase env),
      FindByEmail = UserRepository_FindByEmail (To_LowerCase env),
      Update = UserRepository_Update,
      Delete = UserRepository_Delete (time_Now env),
      List = UserRepository_List (To_LowerCase env),
      Count = UserRepository_Count\<rparr>"

section \<open>Handler: HTTP error mapping (handler/handler.go)\<close>

record ErrorResponse =
  resp_Error :: string
  resp_Message :: string

record UserResponse =
  user_ID :: uuid
  user_Email :: gostring
  user_Name :: gostring
  user_IsActive :: bool
  user_CreatedAt :: time
  user_UpdatedAt :: time

record CreateUserRequest =
  req_Email :: gostring
  req_Name :: gostring
  req_Password :: gostring

datatype body = ErrorJSON ErrorResponse | UserJSON UserResponse | NoContent

text \<open>A response is its status code and its body.\<close>

type_synonym response = "nat \<times> body"

definition toUserResponse :: "UserResponseDTO \<Rightarrow> UserResponse" where
  "toUserResponse dto =
     \<lparr>user_ID = dto_ID dto, user_Email = dto_Email dto, user_Name = dto_Name dto,
      user_IsActive = dto_IsActive dto, user_CreatedAt = dto_CreatedAt dto,
      user_UpdatedAt = dto_UpdatedAt dto\<rparr>"

definition handleError :: "goerr \<Rightarrow> response" where
  "handleError err =
     (if errors_Is err ErrUserNotFound
      then (404, ErrorJSON \<lparr>resp_Error = ''not_found'', resp_Message = ''User not found''\<rparr>)
      else if errors_Is err ErrEmailAlreadyExists
      then (409, ErrorJSON \<lparr>resp_Error = ''conflict'', resp_Message = ''Email already exists''\<rparr>)
      else if errors_Is err ErrInvalidEmail
      then (400, ErrorJSON \<lparr>resp_Error = ''invalid_email'',
                             resp_Message = ''Invalid email format''\<rparr>)
      else if errors_Is err ErrInvalidPassword
      then (401, ErrorJSON \<lparr>resp_Error = ''invalid_password'',
                             resp_Message = ''Invalid password''\<rparr>)
      else if errors_Is err ErrUserInactive
      then (403, ErrorJSON \<lparr>resp_Error = ''user_inactive'',
                             resp_Message = ''User account is inactive''\<rparr>)
      else (500, ErrorJSON \<lparr>resp_Error = ''internal_error'',
                             resp_Message = ''An internal error occurred''\<rparr>))"

text \<open>\<open>req\<close> is what \<^verbatim>\<open>c.BodyParser\<close> made of the body: \<open>None\<close> when it failed.\<close>

definition UserHandler_CreateUser ::
  "env \<Rightarrow> 's UserRepository \<Rightarrow> 's \<Rightarrow> CreateUserRequest option \<Rightarrow> response \<times> 's" where
  "UserHandler_CreateUser env repo s parsed =
     (case parsed of
        None \<Rightarrow>
          ((400, ErrorJSON \<lparr>resp_Error = ''invalid_request'',
                            resp_Message = ''Invalid request body''\<rparr>), s)
      | Some req \<Rightarrow>
     (let dto = \<lparr>create_Email = req_Email req, create_Name = req_Name req,
                 create_Password = req_Password req\<rparr>
      in case CreateUser env repo s dto of
           (Inl err, s') \<Rightarrow> (handleError err, s')
         | (Inr user, s') \<Rightarrow> ((201, UserJSON (toUserResponse user)), s')))"

text \<open>\<open>parsed\<close> is what \<^verbatim>\<open>uuid.Parse\<close> made of the path parameter: \<open>None\<close> when it failed.\<close>

definition UserHandler_DeleteUser ::
  "'s UserRepository \<Rightarrow> 's \<Rightarrow> uuid option \<Rightarrow> response \<times> 's" where
  "UserHandler_DeleteUser repo s parsed =
     (case parsed of
        None \<Rightarrow>
          ((400, ErrorJSON \<lparr>resp_Error = ''invalid_id'',
                            resp_Message = ''Invalid user ID format''\<rparr>), s)
      | Some uid \<Rightarrow>
     (case DeleteUser repo s uid of
        (Some err, s') \<Rightarrow> (handleError err, s')
      | (None, s') \<Rightarrow> ((204, NoContent), s')))"

section \<open>Platform: the transaction manager (platform/database/transaction.go)\<close>

text \<open>
  A transaction handle answers \<^verbatim>\<open>Rollback\<close> and \<^verbatim>\<open>Commit\<close> with an error or with success.
  The function run inside the transaction returns an error, returns success, or panics.
  \<open>WithTransaction\<close> yields how the call ends together with the calls it made on the
  handle.
\<close>

record Tx =
  Rollback :: "goerr option"
  Commit :: "goerr option"

datatype 'p outcome = Returned "goerr option" | Panicked 'p

datatype tx_call = CallRollback | CallCommit

definition WithTransaction ::
  "(goerr + Tx) \<Rightarrow> (Tx \<Rightarrow> 'p outcome) \<Rightarrow> 'p outcome \<times> tx_call list" where
  "WithTransaction begin fn =
     (case begin of
        Inl err \<Rightarrow> (Returned (Some (wrapf ''failed to begin transaction: '' err)), [])
      | Inr tx \<Rightarrow>
     (case fn tx of
        Panicked p \<Rightarrow> (Panicked p, [CallRollback])
      | Returned (Some err) \<Rightarrow>
          (case Rollback tx of
             Some rbErr \<Rightarrow>
               (Returned (Some (fmt_Errorf
                  (''failed to rollback transaction: '' @ Error rbErr
                     @ '' (original error: '' @ Error err @ '')'') rbErr)),
                [CallRollback])
           | None \<Rightarrow> (Returned (Some err), [CallRollback]))
      | Returned None \<Rightarrow>
          (case Commit tx of
             Some err \<Rightarrow>
               (Returned (Some (wrapf ''failed to commit transaction: '' err)), [CallCommit])
           | None \<Rightarrow> (Returned None, [CallCommit]))))"

section \<open>Clients of the service\<close>

text \<open>
  A call of one of the nine public operations of the service, and the store a sequence of
  calls leaves behind, each call with its own clock reading, fresh identifier and bcrypt
  outcome.
\<close>

datatype request =
    CreateUserReq CreateUserDTO
  | GetUserReq uuid
  | GetUserByEmailReq gostring
  | UpdateUserReq uuid UpdateUserDTO
  | DeleteUserReq uuid
  | ActivateUserReq uuid
  | DeactivateUserReq uuid
  | ChangePasswordReq uuid ChangePasswordDTO
  | ListUsersReq go_int go_int

fun serve :: "env \<Rightarrow> 's UserRepository \<Rightarrow> 's \<Rightarrow> request \<Rightarrow> 's" where
  "serve env repo s (CreateUserReq dto) = snd (CreateUser env repo s dto)"
| "serve env repo s (GetUserReq uid) = s"
| "serve env repo s (GetUserByEmailReq e) = s"
| "serve env repo s (UpdateUserReq uid dto) = snd (UpdateUser env repo s uid dto)"
| "serve env repo s (DeleteUserReq uid) = snd (DeleteUser repo s uid)"
| "serve env repo s (ActivateUserReq uid) = snd (ActivateUser env repo s uid)"
| "serve env repo s (DeactivateUserReq uid) = snd (DeactivateUser env repo s uid)"
| "serve env repo s (ChangePasswordReq uid dto) = snd (ChangePassword env repo s uid dto)"
| "serve env repo s (ListUsersReq limit offset) = s"

fun serve_all :: "users_table \<Rightarrow> (env \<times> request) list \<Rightarrow> users_table" where
  "serve_all db [] = db"
| "serve_all db ((env, req) # rest) = serve_all (serve env (NewUserRepository env) db req) rest"

text \<open>
  A table that meets the constraints of its schema and holds only rows as the service
  writes them: identifiers and emails are unique, every email is in the canonical form
  \<open>NewEmail\<close> produces, and every string fits its column.
\<close>

definition users_ok :: "(rune \<Rightarrow> rune) \<Rightarrow> users_table \<Rightarrow> bool" where
  "users_ok tbl db =
     (distinct (map row_id db) \<and> distinct (map email db) \<and>
      list_all (\<lambda>r. NewEmail tbl (email r) = Inr (EmailVO (email r)) \<and> length (email r) \<le> 255
                   \<and> length (name r) \<le> 100 \<and> length (password_hash r) \<le> 255) db)"

section \<open>Sample surroundings\<close>

text \<open>
  The case table of Unicode leaves the white-space runes beyond ASCII as they are;
  \<open>keeps_space\<close> says so of a table.
\<close>

definition keeps_space :: "(rune \<Rightarrow> rune) \<Rightarrow> bool" where
  "keeps_space tbl =
     list_all (\<lambda>r. tbl r = r)
       ([0x85, 0xA0, 0x1680] @ [0x2000 ..< 0x200B] @ [0x2028, 0x2029, 0x202F, 0x205F, 0x3000])"

text \<open>A fragment of the case table: the Kelvin sign U+212A has the lower case \<open>k\<close>.\<close>

definition kelvin :: "rune \<Rightarrow> rune" where
  "kelvin r = (if r = 0x212A then 0x6B else r)"

text \<open>One environment of a call, with a stand-in for bcrypt.\<close>

definition env0 :: env where
  "env0 =
     \<lparr>To_LowerCase = kelvin, time_Now = 1000, uuid_New = 101,
      bcrypt_GenerateFromPassword = (\<lambda>password. Inr (S ''$2a$10$'' @ password)),
      bcrypt_CompareHashAndPassword =
        (\<lambda>hash password.
           if hash = S ''$2a$10$'' @ password then None
           else Some (errors_New
             ''crypto/bcrypt: hashedPassword is not the hash of the given password''))\<rparr>"

text \<open>Two stored users and a request to create the first of them.\<close>

definition alice :: users_row where
  "alice = \<lparr>row_id = 101, email = S ''a@x.com'', name = S ''Alice'',
             password_hash = S ''$2a$10$password1'', is_active = True,
             created_at = 1000, updated_at = 1000\<rparr>"

definition bob :: users_row where
  "bob = \<lparr>row_id = 102, email = S ''b@x.com'', name = S ''Bob'',
           password_hash = S ''$2a$10$password2'', is_active = True,
           created_at = 2000, updated_at = 2000\<rparr>"


section \<open>Predicates on tables\<close>

text \<open>
  \<open>deactivated uid db\<close>: the identifiers of \<open>db\<close> are unique and the row of \<open>uid\<close> is there and
  is not active. \<open>soft_deleted t uid db\<close> is \<open>db\<close> after the soft delete of \<open>uid\<close> at time \<open>t\<close>.
\<close>

definition deactivated :: "uuid \<Rightarrow> users_table \<Rightarrow> bool" where
  "deactivated uid db =
     (distinct (map row_id db) \<and> list_ex (\<lambda>r. row_id r = uid \<and> \<not> is_active r) db)"


section \<open>The response never carries the password hash\<close>

text \<open>
  C9. The user object the service returns is built by \<open>toUserResponseDTO\<close>, and the handler
  copies it field by field with \<open>toUserResponse\<close>. Neither reads the password hash: two
  users that differ only in \<open>PasswordHash\<close> give the same output, whose fields are exactly
  id, email, name, is_active, created_at and updated_at.
\<close>

theorem toUserResponseDTO_hides_PasswordHash:
  "toUserResponseDTO (u\<lparr>PasswordHash := h\<rparr>) = toUserResponseDTO u
   \<and> toUserResponse (toUserResponseDTO (u\<lparr>PasswordHash := h\<rparr>))
       = toUserResponse (toUserResponseDTO u)
   \<and> toUserResponseDTO u =
       \<lparr>dto_ID = ID u, dto_Email = Value (Email u), dto_Name = Name u,
        dto_IsActive = IsActive u, dto_CreatedAt = CreatedAt u, dto_UpdatedAt = UpdatedAt u\<rparr>"
  by (simp add: toUserResponseDTO_def)

section \<open>Email construction is insensitive to case and surrounding white space\<close>

lemma TrimSpace_pad:
  assumes "list_all unicode_IsSpace w1" "list_all unicode_IsSpace w2"
  shows "strings_TrimSpace (w1 @ c @ w2) = strings_TrimSpace c"
proof -
  let ?P = unicode_IsSpace
  have a: "dropWhile ?P (w1 @ c @ w2) = dropWhile ?P (c @ w2)"
    by (rule dropWhile_append2) (use assms(1) in \<open>auto simp: list_all_iff\<close>)
  show ?thesis
  proof (cases "list_all ?P c")
    case True
    then have e: "dropWhile ?P (c @ w2) = []" "dropWhile ?P c = []"
      using assms(2) by (simp_all add: list_all_iff dropWhile_eq_Nil_conv)
    show ?thesis unfolding strings_TrimSpace_def a e by simp
  next
    case False
    then have b: "dropWhile ?P (c @ w2) = dropWhile ?P c @ w2"
      by (auto simp: list_all_iff dropWhile_append1)
    have "dropWhile ?P (rev w2 @ rev (dropWhile ?P c)) = dropWhile ?P (rev (dropWhile ?P c))"
      by (rule dropWhile_append2) (use assms(2) in \<open>auto simp: list_all_iff\<close>)
    then show ?thesis by (simp add: strings_TrimSpace_def a b)
  qed
qed

lemma emailRegex_MatchString_iff:
  "emailRegex_MatchString s \<longleftrightarrow>
     (\<exists>l d t. s = l @ [0x40] @ d @ [0x2E] @ t \<and> l \<noteq> [] \<and> list_all local_class l
        \<and> d \<noteq> [] \<and> list_all domain_class d \<and> 2 \<le> length t \<and> list_all is_alpha t)"
  (is "?L \<longleftrightarrow> ?R")
proof
  assume ?R
  then obtain l d t where s: "s = l @ [0x40] @ d @ [0x2E] @ t" and l: "l \<noteq> []" "list_all local_class l"
    and d: "d \<noteq> []" "list_all domain_class d" and t: "2 \<le> length t" "list_all is_alpha t"
    by blast
  have nl: "\<forall>x\<in>set l. x \<noteq> 0x40"
    using l(2) by (auto simp: list_all_iff local_class_def is_alnum_def is_alpha_def)
  have nt: "\<forall>x\<in>set t. x \<noteq> 0x2E"
    using t(2) by (auto simp: list_all_iff is_alpha_def)
  have tw: "takeWhile (\<lambda>r. r \<noteq> 0x40) s = l"
    using nl by (simp add: s takeWhile_tail)
  have rest: "drop (Suc (length l)) s = d @ [0x2E] @ t" by (simp add: s)
  have tld: "rev (takeWhile (\<lambda>r. r \<noteq> 0x2E) (rev (d @ [0x2E] @ t))) = t"
    using nt by (simp add: takeWhile_tail takeWhile_eq_all_conv[THEN iffD2])
  show ?L
    unfolding emailRegex_MatchString_def Let_def tw rest tld
    using l d t by (simp add: s)
next
  assume L: ?L
  define l where "l = takeWhile (\<lambda>r. r \<noteq> 0x40) s"
  define rest where "rest = drop (Suc (length l)) s"
  define t where "t = rev (takeWhile (\<lambda>r. r \<noteq> 0x2E) (rev rest))"
  define d where "d = take (length rest - Suc (length t)) rest"
  from L have f: "length l < length s" "l \<noteq> []" "list_all local_class l" "length t < length rest"
     "d \<noteq> []" "list_all domain_class d" "2 \<le> length t" "list_all is_alpha t"
    unfolding emailRegex_MatchString_def Let_def l_def rest_def t_def d_def by simp_all
  have "s ! length l = 0x40"
    using f(1) nth_length_takeWhile[of "\<lambda>r. r \<noteq> 0x40" s] by (simp add: l_def)
  moreover have "take (length l) s = l"
    by (simp add: l_def takeWhile_eq_take[symmetric])
  ultimately have s: "s = l @ [0x40] @ rest"
    using f(1) by (metis rest_def append_Cons append_Nil id_take_nth_drop)
  have tr: "length (rev t) < length (rev rest)" using f(4) by simp
  have "rev rest ! length (rev t) = 0x2E"
    using tr nth_length_takeWhile[of "\<lambda>r. r \<noteq> 0x2E" "rev rest"] by (simp add: t_def)
  moreover have "take (length (rev t)) (rev rest) = rev t"
    by (simp add: t_def takeWhile_eq_take[symmetric])
  ultimately have "rev rest = rev t @ [0x2E] @ drop (Suc (length t)) (rev rest)"
    using tr by (metis length_rev append_Cons append_Nil id_take_nth_drop)
  then have "rest = rev (drop (Suc (length t)) (rev rest)) @ [0x2E] @ t"
    by (metis rev_append rev_rev_ident rev.simps append_assoc append_Cons append_Nil)
  moreover have "rev (drop (Suc (length t)) (rev rest)) = d"
    by (simp add: d_def rev_drop)
  ultimately have "rest = d @ [0x2E] @ t" by simp
  with s f show ?R by auto
qed

lemma ToLower_space:
  assumes "keeps_space tbl" "unicode_IsSpace r"
  shows "unicode_ToLower tbl r = r"
proof (cases "r \<le> 0x7F")
  case True
  with assms(2) show ?thesis by (auto simp: unicode_ToLower_def unicode_IsSpace_def)
next
  case False
  with assms(2) have "r \<in> set ([0x85, 0xA0, 0x1680] @ [0x2000 ..< 0x200B] @ [0x2028, 0x2029, 0x202F, 0x205F, 0x3000])"
    by (auto simp: unicode_IsSpace_def simp del: upt_rec_numeral)
  with assms(1) have "tbl r = r" unfolding keeps_space_def list_all_iff by blast
  with False show ?thesis by (simp add: unicode_ToLower_def)
qed

lemma ToLower_spaces:
  "keeps_space tbl \<Longrightarrow> list_all unicode_IsSpace w \<Longrightarrow> strings_ToLower tbl w = w"
  by (auto simp: strings_ToLower_def list_all_iff ToLower_space intro: map_idI)

lemma norm_pad:
  assumes "keeps_space tbl" "list_all unicode_IsSpace w1" "list_all unicode_IsSpace w2"
  shows "strings_TrimSpace (strings_ToLower tbl (w1 @ c @ w2)) = strings_TrimSpace (strings_ToLower tbl c)"
proof -
  have "strings_ToLower tbl (w1 @ c @ w2) = w1 @ strings_ToLower tbl c @ w2"
    using ToLower_spaces[OF assms(1)] assms(2,3) by (simp add: strings_ToLower_def)
  then show ?thesis using assms(2,3) by (simp add: TrimSpace_pad)
qed

lemma NewEmail_eq:
  "NewEmail tbl raw =
     (let e = strings_TrimSpace (strings_ToLower tbl raw)
      in if e \<noteq> [] \<and>
            (\<exists>l d t. e = l @ [0x40] @ d @ [0x2E] @ t \<and> l \<noteq> [] \<and> list_all local_class l
               \<and> d \<noteq> [] \<and> list_all domain_class d \<and> 2 \<le> length t \<and> list_all is_alpha t)
         then Inr (EmailVO e) else Inl ErrInvalidEmail)"
  unfolding NewEmail_def Let_def emailRegex_MatchString_iff by simp

text \<open>
  C6. Two raw strings that differ only in letter case and in leading and trailing white
  space are \<open>w1 @ c1 @ w2\<close> and \<open>w3 @ c2 @ w4\<close>, with white space \<open>w1\<close>, \<open>w2\<close>, \<open>w3\<close>, \<open>w4\<close> and
  cores \<open>c1\<close>, \<open>c2\<close> whose runes agree position by position up to case. \<open>NewEmail\<close> gives
  the same result on both: either the same error or the same canonical value. For every
  raw string the result is the trimmed, lower-cased string when that string is not empty
  and has the shape local\<open>@\<close>domain\<open>.\<close>tld of the pattern, and \<open>ErrInvalidEmail\<close> otherwise.
\<close>

theorem NewEmail_case_and_space:
  assumes "keeps_space tbl"
    and "list_all unicode_IsSpace (w1 @ w2 @ w3 @ w4)"
    and "list_all2 (\<lambda>x y. unicode_ToLower tbl x = unicode_ToLower tbl y) c1 c2"
  shows "NewEmail tbl (w1 @ c1 @ w2) = NewEmail tbl (w3 @ c2 @ w4)
       \<and> (\<forall>raw. NewEmail tbl raw =
            (let e = strings_TrimSpace (strings_ToLower tbl raw)
             in if e \<noteq> [] \<and>
                   (\<exists>l d t. e = l @ [0x40] @ d @ [0x2E] @ t \<and> l \<noteq> [] \<and> list_all local_class l
                      \<and> d \<noteq> [] \<and> list_all domain_class d \<and> 2 \<le> length t
                      \<and> list_all is_alpha t)
                then Inr (EmailVO e) else Inl ErrInvalidEmail))"
proof -
  have c: "strings_ToLower tbl c1 = strings_ToLower tbl c2"
    using assms(3) unfolding strings_ToLower_def
    by (induction c1 c2 rule: list_all2_induct) simp_all
  have "strings_TrimSpace (strings_ToLower tbl (w1 @ c1 @ w2))
        = strings_TrimSpace (strings_ToLower tbl (w3 @ c2 @ w4))"
    using assms(1,2) by (simp add: norm_pad c)
  then have "NewEmail tbl (w1 @ c1 @ w2) = NewEmail tbl (w3 @ c2 @ w4)"
    by (simp add: NewEmail_def)
  then show ?thesis using NewEmail_eq by blast
qed

theorem NewEmail_case_and_space_witness:
  "NewEmail kelvin ([0x20] @ (0x212A # S ''ate@Example.COM'') @ [0xA0, 0x0A])
     = NewEmail kelvin ([0x09] @ S ''kate@example.com'' @ [])
   \<and> NewEmail kelvin ([0x09] @ S ''kate@example.com'' @ []) = Inr (EmailVO (S ''kate@example.com''))"
proof -
  have 1: "keeps_space kelvin" by (simp add: keeps_space_def kelvin_def)
  have 2: "list_all unicode_IsSpace ([0x20] @ [0xA0, 0x0A] @ [0x09] @ [])"
    by (simp add: unicode_IsSpace_def)
  have 3: "list_all2 (\<lambda>x y. unicode_ToLower kelvin x = unicode_ToLower kelvin y)
             (0x212A # S ''ate@Example.COM'') (S ''kate@example.com'')"
    by (simp add: S_def unicode_ToLower_def kelvin_def)
  have 4: "NewEmail kelvin ([0x09] @ S ''kate@example.com'' @ []) = Inr (EmailVO (S ''kate@example.com''))"
    by (simp add: NewEmail_def S_def strings_ToLower_def unicode_ToLower_def strings_TrimSpace_def
        unicode_IsSpace_def emailRegex_MatchString_def local_class_def domain_class_def is_alnum_def is_alpha_def)
  from NewEmail_case_and_space[OF 1 2 3] 4 show ?thesis by blast
qed

section \<open>The transaction manager\<close>

text \<open>
  C4, as amended. With a transaction begun: when \<open>fn\<close> returns success, \<open>WithTransaction\<close>
  calls \<open>Commit\<close> and, when the commit succeeds, returns success. When \<open>fn\<close> returns an error
  it calls \<open>Rollback\<close>; when the rollback succeeds it returns the error of \<open>fn\<close> itself; when
  the rollback fails it returns another error, which wraps the rollback's error and only
  quotes the text of the original.
\<close>

theorem WithTransaction_results:
  "(fn tx = Returned None \<and> Commit tx = None \<longrightarrow>
      WithTransaction (Inr tx) fn = (Returned None, [CallCommit]))
   \<and> (fn tx = Returned (Some err) \<and> Rollback tx = None \<longrightarrow>
      WithTransaction (Inr tx) fn = (Returned (Some err), [CallRollback]))
   \<and> (fn tx = Returned (Some err) \<and> Rollback tx = Some rbErr \<longrightarrow>
      WithTransaction (Inr tx) fn =
        (Returned (Some (fmt_Errorf
           (''failed to rollback transaction: '' @ Error rbErr
              @ '' (original error: '' @ Error err @ '')'') rbErr)), [CallRollback])
      \<and> fmt_Errorf (''failed to rollback transaction: '' @ Error rbErr
              @ '' (original error: '' @ Error err @ '')'') rbErr \<noteq> err)"
proof -
  have "fmt_Errorf (''failed to rollback transaction: '' @ Error rbErr
              @ '' (original error: '' @ Error err @ '')'') rbErr \<noteq> err"
  proof
    assume "fmt_Errorf (''failed to rollback transaction: '' @ Error rbErr
              @ '' (original error: '' @ Error err @ '')'') rbErr = err"
    then have "Error err = ''failed to rollback transaction: '' @ Error rbErr
              @ '' (original error: '' @ Error err @ '')''"
      by (metis Error.simps(9))
    then have "length (Error err) = length (''failed to rollback transaction: '' @ Error rbErr
              @ '' (original error: '' @ Error err @ '')'')" by simp
    then show False by simp
  qed
  then show ?thesis by (simp add: WithTransaction_def)
qed

theorem WithTransaction_results_witness:
  "WithTransaction (Inr \<lparr>Rollback = None, Commit = None\<rparr>) (\<lambda>tx. Returned None :: unit outcome)
     = (Returned None, [CallCommit])
   \<and> WithTransaction (Inr \<lparr>Rollback = None, Commit = None\<rparr>)
       (\<lambda>tx. Returned (Some ErrUserNotFound) :: unit outcome)
     = (Returned (Some ErrUserNotFound), [CallRollback])
   \<and> WithTransaction (Inr \<lparr>Rollback = Some (errors_New ''conn closed''), Commit = None\<rparr>)
       (\<lambda>tx. Returned (Some ErrUserNotFound) :: unit outcome)
     = (Returned (Some (fmt_Errorf
          ''failed to rollback transaction: conn closed (original error: user not found)''
          (errors_New ''conn closed''))), [CallRollback])"
  using WithTransaction_results[of "\<lambda>tx. Returned None :: unit outcome" "\<lparr>Rollback = None, Commit = None\<rparr>"
          ErrUserNotFound ErrUserNotFound]
    WithTransaction_results[of "\<lambda>tx. Returned (Some ErrUserNotFound) :: unit outcome"
          "\<lparr>Rollback = None, Commit = None\<rparr>" ErrUserNotFound ErrUserNotFound]
    WithTransaction_results[of "\<lambda>tx. Returned (Some ErrUserNotFound) :: unit outcome"
          "\<lparr>Rollback = Some (errors_New ''conn closed''), Commit = None\<rparr>" ErrUserNotFound
          "errors_New ''conn closed''"]
  by simp

theorem WithTransaction_rollback_failure_counterexample:
  "WithTransaction (Inr \<lparr>Rollback = Some (errors_New ''conn closed''), Commit = None\<rparr>)
       (\<lambda>tx. Returned (Some ErrUserNotFound) :: unit outcome)
     = (Returned (Some (fmt_Errorf
          ''failed to rollback transaction: conn closed (original error: user not found)''
          (errors_New ''conn closed''))), [CallRollback])
   \<and> fmt_Errorf ''failed to rollback transaction: conn closed (original error: user not found)''
          (errors_New ''conn closed'') \<noteq> ErrUserNotFound
   \<and> \<not> errors_Is (fmt_Errorf
          ''failed to rollback transaction: conn closed (original error: user not found)''
          (errors_New ''conn closed'')) ErrUserNotFound"
  by (simp add: WithTransaction_def)

section \<open>Validation failures and their status code\<close>

text \<open>
  C3. The claim asks for status 400 when the name is empty or the password is too short.
  The code does not deliver it: for every request whose email is not empty and whose name
  is empty or whose password is shorter than 8 bytes, the service fails with a plain
  \<^verbatim>\<open>errors.New\<close> error and leaves the store alone, and \<open>handleError\<close>, which has no case for
  such an error, answers with the generic status 500.
\<close>

theorem CreateUser_validation_is_500:
  assumes "req_Email req \<noteq> []"
    and "req_Name req = [] \<or> len (req_Password req) < 8"
  shows "(\<exists>msg. CreateUser env repo s
             \<lparr>create_Email = req_Email req, create_Name = req_Name req,
              create_Password = req_Password req\<rparr> = (Inl (errors_New msg), s))
       \<and> UserHandler_CreateUser env repo s (Some req) =
           ((500, ErrorJSON \<lparr>resp_Error = ''internal_error'',
                              resp_Message = ''An internal error occurred''\<rparr>), s)"
  using assms
  by (auto simp: UserHandler_CreateUser_def CreateUser_def validateCreateUserInput_def
      validatePassword_def handleError_def Let_def)

theorem CreateUser_validation_is_500_witness:
  "UserHandler_CreateUser env0 (NewUserRepository env0) []
     (Some \<lparr>req_Email = S ''a@x.com'', req_Name = S ''Ann'', req_Password = S ''short''\<rparr>) =
     ((500, ErrorJSON \<lparr>resp_Error = ''internal_error'',
                        resp_Message = ''An internal error occurred''\<rparr>), [])"
proof -
  have 1: "req_Email \<lparr>req_Email = S ''a@x.com'', req_Name = S ''Ann'', req_Password = S ''short''\<rparr> \<noteq> []"
    by (simp add: S_def)
  have 2: "req_Name \<lparr>req_Email = S ''a@x.com'', req_Name = S ''Ann'', req_Password = S ''short''\<rparr> = []
     \<or> len (req_Password \<lparr>req_Email = S ''a@x.com'', req_Name = S ''Ann'', req_Password = S ''short''\<rparr>) < 8"
    by (simp add: S_def len_def RuneLen_def)
  from CreateUser_validation_is_500[OF 1 2, where env = env0 and repo = "NewUserRepository env0"
      and s = "[]"]
  show ?thesis by (rule conjunct2)
qed

section \<open>The store: substring matching, lookups, column widths\<close>




lemmas email_defs = NewEmail_def S_def strings_ToLower_def unicode_ToLower_def
  strings_TrimSpace_def unicode_IsSpace_def emailRegex_MatchString_def local_class_def
  domain_class_def is_alnum_def is_alpha_def kelvin_def

lemma NewEmail_a: "NewEmail kelvin (S ''a@x.com'') = Inr (EmailVO (S ''a@x.com''))"
  by (simp add: email_defs)

lemma NewEmail_b: "NewEmail kelvin (S ''b@x.com'') = Inr (EmailVO (S ''b@x.com''))"
  by (simp add: email_defs)

lemma NewEmail_A: "NewEmail kelvin (S '' A@X.com '') = Inr (EmailVO (S ''a@x.com''))"
  by (simp add: email_defs)

lemma filter_key_unique:
  "distinct (map f xs) \<Longrightarrow> r \<in> set xs \<Longrightarrow> P r \<Longrightarrow> filter (\<lambda>x. f x = f r \<and> P x) xs = [r]"
proof (induction xs)
  case Nil
  then show ?case by simp
next
  case (Cons a xs)
  show ?case
  proof (cases "a = r")
    case True
    with Cons.prems have "\<forall>x\<in>set xs. f x \<noteq> f r" by (auto simp: image_iff)
    then have "filter (\<lambda>x. f x = f r \<and> P x) xs = []" by (simp add: filter_empty_conv)
    with True Cons.prems show ?thesis by simp
  next
    case False
    with Cons.prems have "r \<in> set xs" "f a \<noteq> f r" by (auto simp: image_iff)
    with Cons show ?thesis by simp
  qed
qed

lemma sqlc_GetUserByID_found:
  "distinct (map row_id db) \<Longrightarrow> r \<in> set db \<Longrightarrow> is_active r \<Longrightarrow> sqlc_GetUserByID db (row_id r) = Inr r"
  by (simp add: sqlc_GetUserByID_def filter_key_unique[where f = row_id and P = is_active])

lemma sqlc_GetUserByEmail_found:
  "distinct (map email db) \<Longrightarrow> r \<in> set db \<Longrightarrow> is_active r \<Longrightarrow> sqlc_GetUserByEmail db (email r) = Inr r"
  by (simp add: sqlc_GetUserByEmail_def filter_key_unique[where f = email and P = is_active])

lemma sqlc_GetUserByID_none:
  "\<forall>r\<in>set db. row_id r = uid \<longrightarrow> \<not> is_active r \<Longrightarrow> sqlc_GetUserByID db uid = Inl ErrNoRows"
proof -
  assume "\<forall>r\<in>set db. row_id r = uid \<longrightarrow> \<not> is_active r"
  then have "filter (\<lambda>r. row_id r = uid \<and> is_active r) db = []"
    by (auto simp: filter_empty_conv)
  then show ?thesis by (simp add: sqlc_GetUserByID_def)
qed


lemma sqlc_GetUserByID_Inr:
  "sqlc_GetUserByID db uid = Inr r \<Longrightarrow> r \<in> set db \<and> row_id r = uid \<and> is_active r"
proof -
  assume a: "sqlc_GetUserByID db uid = Inr r"
  then obtain rest where "filter (\<lambda>r. row_id r = uid \<and> is_active r) db = r # rest"
    by (auto simp: sqlc_GetUserByID_def split: list.splits)
  then have "r \<in> set (filter (\<lambda>r. row_id r = uid \<and> is_active r) db)" by simp
  then show ?thesis by simp
qed

lemma FindByID_none:
  "\<forall>r\<in>set db. row_id r = uid \<longrightarrow> \<not> is_active r \<Longrightarrow>
   FindByID (NewUserRepository env) db uid = Inl ErrUserNotFound"
  by (simp add: NewUserRepository_def UserRepository_FindByID_def sqlc_GetUserByID_none)

lemma FindByID_Inr:
  assumes "FindByID (NewUserRepository env) db uid = Inr user"
  shows "ID user = uid \<and> (\<exists>r\<in>set db. row_id r = uid \<and> is_active r \<and> IsActive user
           \<and> PasswordHash user = password_hash r \<and> Name user = name r
           \<and> CreatedAt user = created_at r)"
proof -
  from assms obtain r where r: "sqlc_GetUserByID db uid = Inr r" "toDomainUser (To_LowerCase env) r = Inr user"
    by (auto simp: NewUserRepository_def UserRepository_FindByID_def split: sum.splits if_splits)
  from r(2) have "ID user = row_id r" "IsActive user = is_active r" "PasswordHash user = password_hash r"
    "Name user = name r" "CreatedAt user = created_at r"
    by (auto simp: toDomainUser_def split: sum.splits)
  with sqlc_GetUserByID_Inr[OF r(1)] show ?thesis by auto
qed


lemma FindByID_alice:
  "FindByID (NewUserRepository env0) [alice, bob] 101 =
     Inr \<lparr>ID = 101, Email = EmailVO (S ''a@x.com''), Name = S ''Alice'',
          PasswordHash = S ''$2a$10$password1'', IsActive = True, CreatedAt = 1000,
          UpdatedAt = 1000\<rparr>"
  by (simp add: NewUserRepository_def UserRepository_FindByID_def sqlc_GetUserByID_def
      toDomainUser_def alice_def bob_def env0_def NewEmail_a)



lemma pg_varchar_fits: "length v \<le> n \<Longrightarrow> pg_varchar n ty v = Inr v"
  by (simp add: pg_varchar_def)

lemma toDomainUser_canonical:
  "NewEmail tbl (email r) = Inr (EmailVO (email r)) \<Longrightarrow>
   toDomainUser tbl r =
     Inr \<lparr>ID = row_id r, Email = EmailVO (email r), Name = name r,
          PasswordHash = password_hash r, IsActive = is_active r,
          CreatedAt = created_at r, UpdatedAt = updated_at r\<rparr>"
  by (simp add: toDomainUser_def)

lemma FindByID_ok:
  assumes "users_ok (To_LowerCase env) db" "r \<in> set db" "is_active r"
  shows "FindByID (NewUserRepository env) db (row_id r) =
     Inr \<lparr>ID = row_id r, Email = EmailVO (email r), Name = name r,
          PasswordHash = password_hash r, IsActive = True,
          CreatedAt = created_at r, UpdatedAt = updated_at r\<rparr>"
proof -
  from assms have "distinct (map row_id db)"
    "NewEmail (To_LowerCase env) (email r) = Inr (EmailVO (email r))"
    by (auto simp: users_ok_def list_all_iff)
  with assms(2,3) show ?thesis
    by (simp add: NewUserRepository_def UserRepository_FindByID_def sqlc_GetUserByID_found
        toDomainUser_canonical)
qed

lemma FindByEmail_ok:
  assumes "users_ok (To_LowerCase env) db" "r \<in> set db" "is_active r"
  shows "FindByEmail (NewUserRepository env) db (EmailVO (email r)) =
     Inr \<lparr>ID = row_id r, Email = EmailVO (email r), Name = name r,
          PasswordHash = password_hash r, IsActive = True,
          CreatedAt = created_at r, UpdatedAt = updated_at r\<rparr>"
proof -
  from assms have "distinct (map email db)"
    "NewEmail (To_LowerCase env) (email r) = Inr (EmailVO (email r))"
    by (auto simp: users_ok_def list_all_iff)
  with assms(2,3) show ?thesis
    by (simp add: NewUserRepository_def UserRepository_FindByEmail_def sqlc_GetUserByEmail_found
        toDomainUser_canonical)
qed

lemma sqlc_UpdateUser_ok:
  assumes "r \<in> set db" "length e \<le> 255" "length n \<le> 100" "length h \<le> 255"
    and "\<not> list_ex (\<lambda>x. row_id x \<noteq> row_id r \<and> email x = e) db"
  shows "\<exists>row. sqlc_UpdateUser db (row_id r) e n h a t =
     (Inr row, map (\<lambda>x. if row_id x = row_id r
                        then x\<lparr>email := e, name := n, password_hash := h, is_active := a,
                               updated_at := t\<rparr>
                        else x) db)"
proof -
  have "r \<in> set (filter (\<lambda>x. row_id x = row_id r) db)" using assms(1) by simp
  then obtain old rest where "filter (\<lambda>x. row_id x = row_id r) db = old # rest"
    by (cases "filter (\<lambda>x. row_id x = row_id r) db") auto
  with assms(2-5) show ?thesis
    by (simp add: sqlc_UpdateUser_def pg_varchar_fits Let_def)
qed

lemma email_unique:
  assumes "users_ok tbl db" "x \<in> set db" "y \<in> set db" "email x = email y"
  shows "x = y"
proof -
  from assms(1) have "distinct (map email db)" by (simp add: users_ok_def)
  then have "inj_on email (set db)" by (simp add: distinct_map)
  then show ?thesis using assms(4) assms(2) assms(3) by (rule inj_onD)
qed

section \<open>Pagination through the repository\<close>

text \<open>
  Where the claim on pagination holds: for every limit and every offset below \<open>2^31\<close>, on a
  well-formed table, \<open>ListUsers\<close> returns the effective limit and offset, the count of
  active users, and \<open>HasMore\<close> as the comparison of their sum with the count.
\<close>

lemma sint_add_small:
  fixes a b :: "64 word"
  assumes "0 \<le> sint a" "0 \<le> sint b" "sint a + sint b \<le> 2 ^ 63 - 1"
  shows "sint (a + b) = sint a + sint b"
proof -
  have "sint (a + b) = signed_take_bit 63 (sint a + sint b)"
    by (simp add: sint_word_ariths)
  also have "\<dots> = sint a + sint b"
    using assms by (intro signed_take_bit_int_eq_self) auto
  finally show ?thesis .
qed

lemma uint_sint_nonneg:
  fixes w :: "64 word"
  assumes "0 \<le> sint w"
  shows "uint w = sint w"
proof -
  have nb: "\<not> bit (uint w) 63"
    using assms by (simp add: sint_uint not_less[symmetric])
  have "uint w = take_bit 64 (uint w)" by (simp add: take_bit_int_eq_self uint_lt2p[where 'a=64, simplified] )
  also have "\<dots> = take_bit 63 (uint w)"
    using nb take_bit_Suc_from_most[of 63 "uint w"] by simp
  also have "\<dots> = signed_take_bit 63 (uint w)"
    using nb by (simp add: signed_take_bit_eq_if_positive)
  finally show ?thesis by (simp add: sint_uint)
qed

lemma sint_ucast_small:
  fixes w :: "64 word"
  assumes "0 \<le> sint w" "sint w < 2 ^ 31"
  shows "sint (ucast w :: 32 word) = sint w"
proof -
  have u: "uint w = sint w" using assms(1) by (rule uint_sint_nonneg)
  have b: "uint w < 2 ^ 31" "0 \<le> uint w" using assms u by simp_all
  have "uint (ucast w :: 32 word) = take_bit 32 (uint w)"
    by (simp add: unsigned_ucast_eq)
  also have "\<dots> = uint w" using b by (simp add: take_bit_int_eq_self)
  finally have e: "uint (ucast w :: 32 word) = uint w" .
  have "sint (ucast w :: 32 word) = signed_take_bit 31 (uint (ucast w :: 32 word))"
    by (simp add: sint_uint)
  also have "\<dots> = uint w" unfolding e
  proof (rule signed_take_bit_int_eq_self)
    have "- (2 ^ 31) \<le> (0 :: int)" by simp
    also have "0 \<le> uint w" by simp
    finally show "- (2 ^ 31) \<le> uint w" .
    show "uint w < 2 ^ 31" by (rule b(1))
  qed
  finally show ?thesis using u by simp
qed


lemma mapUsers_ok:
  "list_all (\<lambda>r. NewEmail tbl (email r) = Inr (EmailVO (email r))) rows \<Longrightarrow>
   \<exists>users. mapUsers tbl i rows = Inr users"
proof (induction rows arbitrary: i)
  case Nil
  then show ?case by simp
next
  case (Cons a rows)
  from Cons.prems have "list_all (\<lambda>r. NewEmail tbl (email r) = Inr (EmailVO (email r))) rows"
    by simp
  from Cons.IH[OF this, of "Suc i"] obtain us where "mapUsers tbl (Suc i) rows = Inr us" by blast
  moreover from Cons.prems have "NewEmail tbl (email a) = Inr (EmailVO (email a))" by simp
  ultimately show ?case by (simp add: toDomainUser_def)
qed

lemma ListUsers_store_accepts:
  fixes limit offset :: go_int
  defines "lim \<equiv> (if sint limit \<le> 0 then 10 else if sint limit > 100 then 100 else limit)"
    and "off \<equiv> (if sint offset < 0 then 0 else offset)"
  assumes "users_ok (To_LowerCase env) db" and "sint offset < 2 ^ 31"
  shows "\<exists>users. ListUsers (NewUserRepository env) db limit offset =
           Inr \<lparr>Users = users, Total = of_nat (length (filter is_active db)), Limit = lim,
                Offset = off,
                HasMore = (sint off + sint lim
                             < sint (of_nat (length (filter is_active db)) :: int64))\<rparr>"
proof -
  have l: "(let l = (if sint limit \<le> 0 then 10 else limit) in if sint l > 100 then 100 else l) = lim"
    by (simp add: lim_def Let_def)
  have b: "1 \<le> sint lim" "sint lim \<le> 100" "0 \<le> sint off" "sint off < 2 ^ 31"
    using assms(4) by (auto simp: lim_def off_def)
  have cl: "sint (ucast lim :: int32) = sint lim" using b by (intro sint_ucast_small) auto
  have co: "sint (ucast off :: int32) = sint off" using b by (intro sint_ucast_small) auto
  let ?page = "take (nat (sint lim)) (drop (nat (sint off))
                  (rev (sort_key created_at (filter is_active db))))"
  have q: "sqlc_ListUsers db (ucast lim) (ucast off) = Inr ?page"
    using b by (simp add: sqlc_ListUsers_def cl co)
  have "set ?page \<subseteq> set db"
  proof -
    have "set ?page \<subseteq> set (rev (sort_key created_at (filter is_active db)))"
      by (meson set_take_subset set_drop_subset subset_trans)
    then show ?thesis by auto
  qed
  moreover from assms(3) have "list_all (\<lambda>r. NewEmail (To_LowerCase env) (email r) = Inr (EmailVO (email r))) db"
    by (simp add: users_ok_def list_all_iff)
  ultimately have "list_all (\<lambda>r. NewEmail (To_LowerCase env) (email r) = Inr (EmailVO (email r))) ?page"
    unfolding list_all_iff by blast
  from mapUsers_ok[OF this, of 0] obtain users where m: "mapUsers (To_LowerCase env) 0 ?page = Inr users"
    by blast
  have li: "List (NewUserRepository env) db lim off = Inr users"
    by (simp add: NewUserRepository_def UserRepository_List_def q m)
  have c: "Count (NewUserRepository env) db = Inr (of_nat (length (filter is_active db)))"
    by (simp add: NewUserRepository_def UserRepository_Count_def sqlc_CountUsers_def)
  have a: "sint (off + lim) = sint off + sint lim"
    using b by (intro sint_add_small) auto
  have "ListUsers (NewUserRepository env) db limit offset =
           Inr \<lparr>Users = map toUserResponseDTO users,
                Total = of_nat (length (filter is_active db)), Limit = lim,
                Offset = off,
                HasMore = (sint off + sint lim
                             < sint (of_nat (length (filter is_active db)) :: int64))\<rparr>"
    using li c l unfolding ListUsers_def Let_def off_def[symmetric] by (simp add: a)
  then show ?thesis by blast
qed

text \<open>
  C5. The claim says this of every offset, and there the code fails it: the repository
  narrows the offset to 32 bits without a check. At offset \<open>2^32\<close> the query runs with
  OFFSET 0, so the response carries the first page under the offset \<open>2^32\<close>; at offset
  \<open>2^31\<close> the narrowed value is negative, the store rejects it, and \<open>ListUsers\<close> returns an
  error instead of a response.
\<close>

theorem ListUsers_offset_truncated:
  "ListUsers (NewUserRepository env0) [alice] 10 0x100000000 =
     Inr \<lparr>Users = [\<lparr>dto_ID = 101, dto_Email = S ''a@x.com'', dto_Name = S ''Alice'',
                    dto_IsActive = True, dto_CreatedAt = 1000, dto_UpdatedAt = 1000\<rparr>],
          Total = 1, Limit = 10, Offset = 0x100000000, HasMore = False\<rparr>
   \<and> ListUsers (NewUserRepository env0) [alice] 10 0x80000000 =
     Inl (fmt_Errorf
       ''failed to list users: failed to list users: ERROR: OFFSET must not be negative (SQLSTATE 2201X)''
       (fmt_Errorf ''failed to list users: ERROR: OFFSET must not be negative (SQLSTATE 2201X)''
          (PgError ''OFFSET must not be negative'' ''2201X'')))"
proof -
  have t: "toDomainUser kelvin alice =
      Inr \<lparr>ID = 101, Email = EmailVO (S ''a@x.com''), Name = S ''Alice'',
          PasswordHash = S ''$2a$10$password1'', IsActive = True, CreatedAt = 1000,
          UpdatedAt = 1000\<rparr>"
    using NewEmail_a by (simp add: toDomainUser_def alice_def)
  have act: "is_active alice" by (simp add: alice_def)
  have l1: "List (NewUserRepository env0) [alice] 10 0x100000000 =
      Inr [\<lparr>ID = 101, Email = EmailVO (S ''a@x.com''), Name = S ''Alice'',
          PasswordHash = S ''$2a$10$password1'', IsActive = True, CreatedAt = 1000,
          UpdatedAt = 1000\<rparr>]"
    by (simp add: NewUserRepository_def UserRepository_List_def sqlc_ListUsers_def act t env0_def)
  have l2: "List (NewUserRepository env0) [alice] 10 0x80000000 =
      Inl (fmt_Errorf ''failed to list users: ERROR: OFFSET must not be negative (SQLSTATE 2201X)''
          (PgError ''OFFSET must not be negative'' ''2201X''))"
    by (simp add: NewUserRepository_def UserRepository_List_def sqlc_ListUsers_def wrapf_def env0_def)
  have c: "Count (NewUserRepository env0) [alice] = Inr 1"
    by (simp add: NewUserRepository_def UserRepository_Count_def sqlc_CountUsers_def act)
  have 1: "ListUsers (NewUserRepository env0) [alice] 10 0x100000000 =
     Inr \<lparr>Users = [\<lparr>dto_ID = 101, dto_Email = S ''a@x.com'', dto_Name = S ''Alice'',
                    dto_IsActive = True, dto_CreatedAt = 1000, dto_UpdatedAt = 1000\<rparr>],
          Total = 1, Limit = 10, Offset = 0x100000000, HasMore = False\<rparr>"
    by (simp add: ListUsers_def l1 c toUserResponseDTO_def)
  have 2: "ListUsers (NewUserRepository env0) [alice] 10 0x80000000 =
     Inl (fmt_Errorf
       ''failed to list users: failed to list users: ERROR: OFFSET must not be negative (SQLSTATE 2201X)''
       (fmt_Errorf ''failed to list users: ERROR: OFFSET must not be negative (SQLSTATE 2201X)''
          (PgError ''OFFSET must not be negative'' ''2201X'')))"
    by (simp add: ListUsers_def l2 wrapf_def)
  from 1 2 show ?thesis by (rule conjI)
qed

section \<open>Deleting a user that is not there\<close>

text \<open>
  C2. The claim asks that deleting an identifier that matches no row fail with
  \<open>ErrUserNotFound\<close> (status 404). The code does not deliver it: the soft-delete statement is
  run for its error only, an UPDATE that matches no row is no error, and so \<open>Delete\<close>
  returns success for every identifier and the handler answers 204. Every row that does
  match has its active flag set to false.
\<close>

theorem Delete_never_reports_absence:
  "Delete (NewUserRepository env) db uid =
     (None, map (\<lambda>r. if row_id r = uid then r\<lparr>is_active := False, updated_at := time_Now env\<rparr>
                      else r) db)
   \<and> fst (UserHandler_DeleteUser (NewUserRepository env) db (Some uid)) = (204, NoContent)
   \<and> DeleteUser (NewUserRepository env) [] uid = (None, [])"
  by (simp add: UserHandler_DeleteUser_def DeleteUser_def NewUserRepository_def
      UserRepository_Delete_def sqlc_DeleteUser_def)

section \<open>Changing a password with a wrong old password\<close>

text \<open>
  C7. When the repository finds the user and the old password does not verify against the
  stored hash, \<open>ChangePassword\<close> fails with \<open>ErrInvalidPassword\<close> and returns the store as it
  was: no update is made. Nothing is asked of the new password, so the old password is
  checked before the new one is validated.
\<close>

theorem ChangePassword_wrong_old_password:
  assumes "FindByID repo s uid = Inr user"
    and "verifyPassword env (PasswordHash user) (OldPassword dto) = Some err"
  shows "ChangePassword env repo s uid dto = (Some ErrInvalidPassword, s)"
  using assms by (simp add: ChangePassword_def)

theorem ChangePassword_wrong_old_password_witness:
  "ChangePassword env0 (NewUserRepository env0) [alice, bob] 101
     \<lparr>OldPassword = S ''password2'', NewPassword = S ''x''\<rparr> = (Some ErrInvalidPassword, [alice, bob])"
proof -
  have "verifyPassword env0 (S ''$2a$10$password1'') (S ''password2'')
          = Some (errors_New ''crypto/bcrypt: hashedPassword is not the hash of the given password'')"
    by (simp add: verifyPassword_def env0_def S_def)
  with ChangePassword_wrong_old_password[OF FindByID_alice,
      of env0 "\<lparr>OldPassword = S ''password2'', NewPassword = S ''x''\<rparr>"]
  show ?thesis by simp
qed

section \<open>A deactivated account stays deactivated\<close>

lemma deactivated_no_active:
  assumes "deactivated i db" "r \<in> set db" "row_id r = i"
  shows "\<not> is_active r"
proof -
  from assms(1) obtain x where x: "x \<in> set db" "row_id x = i" "\<not> is_active x"
    by (auto simp: deactivated_def list_ex_iff)
  from assms(1) have "inj_on row_id (set db)" by (simp add: deactivated_def distinct_map)
  then have "r = x" using _ assms(2) x(1) by (rule inj_onD) (simp add: assms(3) x(2))
  with x(3) show ?thesis by simp
qed

lemma sqlc_CreateUser_snd:
  "snd (sqlc_CreateUser db arg) = db \<or>
   (\<exists>r'. snd (sqlc_CreateUser db arg) = db @ [r'] \<and> row_id r' \<notin> row_id ` set db)"
  by (auto simp: sqlc_CreateUser_def Let_def list_ex_iff split: sum.splits)

lemma Save_deactivated:
  assumes "deactivated i db"
  shows "deactivated i (snd (Save (NewUserRepository env) db user))"
proof -
  let ?arg = "\<lparr>row_id = ID user, email = Value (Email user), name = Name user,
              password_hash = PasswordHash user, is_active = IsActive user,
              created_at = CreatedAt user, updated_at = UpdatedAt user\<rparr>"
  have s: "snd (Save (NewUserRepository env) db user) = snd (sqlc_CreateUser db ?arg)"
    by (simp add: NewUserRepository_def UserRepository_Save_def split: prod.splits sum.splits)
  from sqlc_CreateUser_snd[of db ?arg] assms show ?thesis
    unfolding s deactivated_def list_ex_iff by auto
qed

lemma sqlc_UpdateUser_snd:
  "snd (sqlc_UpdateUser db uid e n h a t) = db \<or>
   (\<exists>f. (\<forall>r. row_id (f r) = row_id r) \<and>
        snd (sqlc_UpdateUser db uid e n h a t) = map (\<lambda>r. if row_id r = uid then f r else r) db)"
proof (cases "\<exists>old rest e' n' h'. filter (\<lambda>r. row_id r = uid) db = old # rest
    \<and> pg_varchar 255 ''character varying(255)'' e = Inr e'
    \<and> pg_varchar 100 ''character varying(100)'' n = Inr n'
    \<and> pg_varchar 255 ''character varying(255)'' h = Inr h'
    \<and> \<not> list_ex (\<lambda>x. row_id x \<noteq> uid \<and> email x = e') db")
  case True
  then obtain old rest e' n' h' where *: "filter (\<lambda>r. row_id r = uid) db = old # rest"
    "pg_varchar 255 ''character varying(255)'' e = Inr e'"
    "pg_varchar 100 ''character varying(100)'' n = Inr n'"
    "pg_varchar 255 ''character varying(255)'' h = Inr h'"
    "\<not> list_ex (\<lambda>x. row_id x \<noteq> uid \<and> email x = e') db" by blast
  let ?f = "\<lambda>r. r\<lparr>email := e', name := n', password_hash := h', is_active := a, updated_at := t\<rparr>"
  have "snd (sqlc_UpdateUser db uid e n h a t) = map (\<lambda>r. if row_id r = uid then ?f r else r) db"
    using * by (simp add: sqlc_UpdateUser_def Let_def)
  then show ?thesis by (intro disjI2 exI[of _ ?f]) simp
next
  case False
  then have "snd (sqlc_UpdateUser db uid e n h a t) = db"
    by (auto simp: sqlc_UpdateUser_def Let_def split: list.splits sum.splits)
  then show ?thesis by simp
qed

lemma map_ids_deactivated:
  assumes "deactivated i db" "\<forall>r. row_id (f r) = row_id r"
    and "uid \<noteq> i \<or> (\<forall>r. \<not> is_active (f r))"
  shows "deactivated i (map (\<lambda>r. if row_id r = uid then f r else r) db)"
proof -
  have m: "map row_id (map (\<lambda>r. if row_id r = uid then f r else r) db) = map row_id db"
    using assms(2) by (induction db) auto
  from assms(1) obtain r where r: "r \<in> set db" "row_id r = i" "\<not> is_active r"
    by (auto simp: deactivated_def list_ex_iff)
  let ?r' = "if row_id r = uid then f r else r"
  have "?r' \<in> set (map (\<lambda>r. if row_id r = uid then f r else r) db)" using r(1) by (simp add: image_iff) blast
  moreover have "row_id ?r' = i \<and> \<not> is_active ?r'" using r assms(2,3) by auto
  ultimately have "list_ex (\<lambda>r. row_id r = i \<and> \<not> is_active r) (map (\<lambda>r. if row_id r = uid then f r else r) db)"
    unfolding list_ex_iff by blast
  moreover have "distinct (map row_id (map (\<lambda>r. if row_id r = uid then f r else r) db))"
    unfolding m using assms(1) by (simp add: deactivated_def)
  ultimately show ?thesis unfolding deactivated_def by blast
qed

lemma Update_deactivated:
  assumes "deactivated i db" "ID user \<noteq> i"
  shows "deactivated i (snd (Update (NewUserRepository env) db user))"
proof -
  have s: "snd (Update (NewUserRepository env) db user) =
        snd (sqlc_UpdateUser db (ID user) (Value (Email user)) (Name user) (PasswordHash user)
             (IsActive user) (UpdatedAt user))"
    by (simp add: NewUserRepository_def UserRepository_Update_def split: prod.splits sum.splits)
  from sqlc_UpdateUser_snd[of db "ID user" "Value (Email user)" "Name user" "PasswordHash user"
             "IsActive user" "UpdatedAt user"] assms
  show ?thesis unfolding s by (auto intro: map_ids_deactivated)
qed

lemma Delete_deactivated:
  assumes "deactivated i db"
  shows "deactivated i (snd (Delete (NewUserRepository env) db uid))"
proof -
  have s: "snd (Delete (NewUserRepository env) db uid) =
      map (\<lambda>r. if row_id r = uid then r\<lparr>is_active := False, updated_at := time_Now env\<rparr> else r) db"
    by (simp add: NewUserRepository_def UserRepository_Delete_def sqlc_DeleteUser_def)
  show ?thesis unfolding s using assms by (intro map_ids_deactivated) auto
qed

lemma FindByID_not_deactivated:
  assumes "deactivated i db" "FindByID (NewUserRepository env) db uid = Inr user"
  shows "ID user \<noteq> i"
  using FindByID_Inr[OF assms(2)] deactivated_no_active[OF assms(1)] by auto

lemma CreateUser_snd:
  "snd (CreateUser env repo s dto) = s \<or> (\<exists>user. snd (CreateUser env repo s dto) = snd (Save repo s user))"
  by (auto simp: CreateUser_def split: option.splits sum.splits prod.splits) (metis snd_conv)+

lemma UpdateUser_snd:
  "snd (UpdateUser env repo s uid dto) = s \<or>
   (\<exists>user user'. FindByID repo s uid = Inr user \<and> ID user' = ID user
       \<and> snd (UpdateUser env repo s uid dto) = snd (Update repo s user'))"
proof (cases "FindByID repo s uid")
  case (Inl e)
  then show ?thesis by (simp add: UpdateUser_def)
next
  case (Inr user)
  have "snd (UpdateUser env repo s uid dto) = s \<or>
        (\<exists>newEmail. snd (UpdateUser env repo s uid dto) =
           snd (Update repo s (user\<lparr>Name := update_Name dto, Email := newEmail,
                                    UpdatedAt := time_Now env\<rparr>)))"
    using Inr
    by (auto simp: UpdateUser_def UpdateProfile_def
        split: option.splits sum.splits prod.splits if_splits) (metis snd_conv)+
  moreover have "\<And>newEmail. ID (user\<lparr>Name := update_Name dto, Email := newEmail,
                                    UpdatedAt := time_Now env\<rparr>) = ID user" by simp
  ultimately show ?thesis using Inr by metis
qed

lemma ActivateUser_snd:
  "snd (ActivateUser env repo s uid) = s \<or>
   (\<exists>user user'. FindByID repo s uid = Inr user \<and> ID user' = ID user
       \<and> snd (ActivateUser env repo s uid) = snd (Update repo s user'))"
proof (cases "FindByID repo s uid")
  case (Inl e)
  then show ?thesis by (simp add: ActivateUser_def)
next
  case (Inr user)
  let ?u = "Activate (time_Now env) user"
  have "ID ?u = ID user" by (simp add: Activate_def)
  moreover have "snd (ActivateUser env repo s uid) = snd (Update repo s ?u)"
    using Inr by (simp add: ActivateUser_def Let_def split: prod.splits option.splits)
  ultimately show ?thesis using Inr by blast
qed

lemma DeactivateUser_snd:
  "snd (DeactivateUser env repo s uid) = s \<or>
   (\<exists>user user'. FindByID repo s uid = Inr user \<and> ID user' = ID user
       \<and> snd (DeactivateUser env repo s uid) = snd (Update repo s user'))"
proof (cases "FindByID repo s uid")
  case (Inl e)
  then show ?thesis by (simp add: DeactivateUser_def)
next
  case (Inr user)
  let ?u = "Deactivate (time_Now env) user"
  have "ID ?u = ID user" by (simp add: Deactivate_def)
  moreover have "snd (DeactivateUser env repo s uid) = snd (Update repo s ?u)"
    using Inr by (simp add: DeactivateUser_def Let_def split: prod.splits option.splits)
  ultimately show ?thesis using Inr by blast
qed

lemma ChangePassword_snd:
  "snd (ChangePassword env repo s uid dto) = s \<or>
   (\<exists>user user'. FindByID repo s uid = Inr user \<and> ID user' = ID user
       \<and> snd (ChangePassword env repo s uid dto) = snd (Update repo s user'))"
proof (cases "FindByID repo s uid")
  case (Inl e)
  then show ?thesis by (simp add: ChangePassword_def)
next
  case (Inr user)
  have "snd (ChangePassword env repo s uid dto) = s \<or>
        (\<exists>h. snd (ChangePassword env repo s uid dto) =
           snd (Update repo s (user\<lparr>PasswordHash := h, UpdatedAt := time_Now env\<rparr>)))"
    using Inr
    by (auto simp: ChangePassword_def User_ChangePassword_def
        split: option.splits sum.splits prod.splits if_splits) (metis snd_conv)+
  moreover have "\<And>h. ID (user\<lparr>PasswordHash := h, UpdatedAt := time_Now env\<rparr>) = ID user" by simp
  ultimately show ?thesis using Inr by metis
qed

lemma serve_deactivated:
  assumes "deactivated i db"
  shows "deactivated i (serve env (NewUserRepository env) db req)"
proof (cases req)
  case (CreateUserReq dto)
  with CreateUser_snd[of env "NewUserRepository env" db dto] assms show ?thesis
    by (auto simp: Save_deactivated)
next
  case (UpdateUserReq uid dto)
  with UpdateUser_snd[of env "NewUserRepository env" db uid dto] assms show ?thesis
    by (auto simp: Update_deactivated FindByID_not_deactivated)
next
  case (DeleteUserReq uid)
  with assms show ?thesis by (simp add: DeleteUser_def Delete_deactivated)
next
  case (ActivateUserReq uid)
  with ActivateUser_snd[of env "NewUserRepository env" db uid] assms show ?thesis
    by (auto simp: Update_deactivated FindByID_not_deactivated)
next
  case (DeactivateUserReq uid)
  with DeactivateUser_snd[of env "NewUserRepository env" db uid] assms show ?thesis
    by (auto simp: Update_deactivated FindByID_not_deactivated)
next
  case (ChangePasswordReq uid dto)
  with ChangePassword_snd[of env "NewUserRepository env" db uid dto] assms show ?thesis
    by (auto simp: Update_deactivated FindByID_not_deactivated)
qed (use assms in simp_all)

lemma serve_all_deactivated:
  "deactivated i db \<Longrightarrow> deactivated i (serve_all db calls)"
  by (induction calls arbitrary: db) (auto simp: serve_deactivated)

text \<open>
  C10. In a table with unique identifiers, for every row \<open>r\<close> that is not active,
  \<open>ActivateUser\<close> on its identifier fails with \<open>ErrUserNotFound\<close> and leaves the table as it
  was; and after any sequence of calls of the service, the row of that identifier is
  still not active.
\<close>

theorem ActivateUser_deactivated:
  assumes "distinct (map row_id db)" and "r \<in> set db" and "\<not> is_active r"
  shows "ActivateUser env (NewUserRepository env) db (row_id r) = (Inl ErrUserNotFound, db)
       \<and> (\<forall>calls. \<forall>x\<in>set (serve_all db calls). row_id x = row_id r \<longrightarrow> \<not> is_active x)"
proof -
  have d: "deactivated (row_id r) db"
    using assms by (auto simp: deactivated_def list_ex_iff)
  have "FindByID (NewUserRepository env) db (row_id r) = Inl ErrUserNotFound"
    using deactivated_no_active[OF d] by (intro FindByID_none) auto
  then have "ActivateUser env (NewUserRepository env) db (row_id r) = (Inl ErrUserNotFound, db)"
    by (simp add: ActivateUser_def)
  moreover have "\<forall>calls. \<forall>x\<in>set (serve_all db calls). row_id x = row_id r \<longrightarrow> \<not> is_active x"
    using serve_all_deactivated[OF d] deactivated_no_active by blast
  ultimately show ?thesis by simp
qed

theorem ActivateUser_deactivated_witness:
  "ActivateUser env0 (NewUserRepository env0) [alice\<lparr>is_active := False\<rparr>, bob] 101 =
     (Inl ErrUserNotFound, [alice\<lparr>is_active := False\<rparr>, bob])
   \<and> filter (\<lambda>x. row_id x = 101 \<and> is_active x)
        (serve_all [alice\<lparr>is_active := False\<rparr>, bob]
           [(env0, ActivateUserReq 101), (env0, DeactivateUserReq 102)]) = []"
proof -
  have 1: "distinct (map row_id [alice\<lparr>is_active := False\<rparr>, bob])"
    by (simp add: alice_def bob_def)
  have 2: "alice\<lparr>is_active := False\<rparr> \<in> set [alice\<lparr>is_active := False\<rparr>, bob]" by simp
  have 3: "\<not> is_active (alice\<lparr>is_active := False\<rparr>)" by simp
  have 4: "row_id (alice\<lparr>is_active := False\<rparr>) = 101" by (simp add: alice_def)
  note t = ActivateUser_deactivated[OF 1 2 3, of env0, unfolded 4]
  from t have a: "ActivateUser env0 (NewUserRepository env0) [alice\<lparr>is_active := False\<rparr>, bob] 101 =
     (Inl ErrUserNotFound, [alice\<lparr>is_active := False\<rparr>, bob])" by (rule conjunct1)
  from t have "\<forall>x\<in>set (serve_all [alice\<lparr>is_active := False\<rparr>, bob]
           [(env0, ActivateUserReq 101), (env0, DeactivateUserReq 102)]).
        row_id x = 101 \<longrightarrow> \<not> is_active x" by blast
  then have b: "filter (\<lambda>x. row_id x = 101 \<and> is_active x)
        (serve_all [alice\<lparr>is_active := False\<rparr>, bob]
           [(env0, ActivateUserReq 101), (env0, DeactivateUserReq 102)]) = []"
    unfolding filter_empty_conv by blast
  from a b show ?thesis by (rule conjI)
qed

section \<open>Creating a user with the email of a deleted one\<close>












section \<open>Updating a user's email\<close>

lemma UpdateUser_same_email:
  assumes "users_ok (To_LowerCase env) db" and "r \<in> set db" and "is_active r"
    and "update_Name dto \<noteq> []" and "length (update_Name dto) \<le> 100"
    and e: "NewEmail (To_LowerCase env) (update_Email dto) = Inr (EmailVO (email r))"
  shows "UpdateUser env (NewUserRepository env) db (row_id r) dto =
          (Inr \<lparr>dto_ID = row_id r, dto_Email = email r, dto_Name = update_Name dto,
                dto_IsActive = True, dto_CreatedAt = created_at r,
                dto_UpdatedAt = time_Now env\<rparr>,
           map (\<lambda>x. if row_id x = row_id r
                     then x\<lparr>email := email r, name := update_Name dto,
                            password_hash := password_hash r, is_active := True,
                            updated_at := time_Now env\<rparr>
                     else x) db)"
proof -
  let ?R = "NewUserRepository env"
  let ?u = "\<lparr>ID = row_id r, Email = EmailVO (email r), Name = name r,
          PasswordHash = password_hash r, IsActive = True,
          CreatedAt = created_at r, UpdatedAt = updated_at r\<rparr>"
  let ?u' = "\<lparr>ID = row_id r, Email = EmailVO (email r), Name = update_Name dto,
          PasswordHash = password_hash r, IsActive = True,
          CreatedAt = created_at r, UpdatedAt = time_Now env\<rparr>"
  have fid: "FindByID ?R db (row_id r) = Inr ?u" using FindByID_ok[OF assms(1-3)] .
  from assms(1,2) have len: "length (email r) \<le> 255" "length (password_hash r) \<le> 255"
    by (auto simp: users_ok_def list_all_iff)
  have nc: "\<not> list_ex (\<lambda>x. row_id x \<noteq> row_id r \<and> email x = email r) db"
    using email_unique[OF assms(1) _ assms(2)] by (auto simp: list_ex_iff)
  from sqlc_UpdateUser_ok[OF assms(2) len(1) assms(5) len(2) nc, of True "time_Now env"]
  obtain row where "sqlc_UpdateUser db (row_id r) (email r) (update_Name dto) (password_hash r)
       True (time_Now env) =
     (Inr row, map (\<lambda>x. if row_id x = row_id r
                     then x\<lparr>email := email r, name := update_Name dto,
                            password_hash := password_hash r, is_active := True,
                            updated_at := time_Now env\<rparr>
                     else x) db)" by blast
  then have up: "Update ?R db ?u' =
        (None, map (\<lambda>x. if row_id x = row_id r
                     then x\<lparr>email := email r, name := update_Name dto,
                            password_hash := password_hash r, is_active := True,
                            updated_at := time_Now env\<rparr>
                     else x) db)"
    by (simp add: NewUserRepository_def UserRepository_Update_def)
  have pr: "UpdateProfile (time_Now env) ?u (update_Name dto) (EmailVO (email r)) = Inr ?u'"
    using assms(4) by (simp add: UpdateProfile_def)
  show ?thesis
    unfolding UpdateUser_def fid using assms(4)
    by (simp add: e pr up toUserResponseDTO_def)
qed

lemma UpdateUser_other_email:
  assumes "users_ok (To_LowerCase env) db" and "r \<in> set db" and "is_active r"
    and "update_Name dto \<noteq> []"
    and "other \<in> set db" "is_active other" "row_id other \<noteq> row_id r"
    and e: "NewEmail (To_LowerCase env) (update_Email dto) = Inr (EmailVO (email other))"
  shows "UpdateUser env (NewUserRepository env) db (row_id r) dto = (Inl ErrEmailAlreadyExists, db)"
proof -
  let ?R = "NewUserRepository env"
  let ?u = "\<lparr>ID = row_id r, Email = EmailVO (email r), Name = name r,
          PasswordHash = password_hash r, IsActive = True,
          CreatedAt = created_at r, UpdatedAt = updated_at r\<rparr>"
  have fid: "FindByID ?R db (row_id r) = Inr ?u" using FindByID_ok[OF assms(1-3)] .
  have ne: "email other \<noteq> email r"
    using email_unique[OF assms(1) assms(5) assms(2)] assms(7) by auto
  have fe: "FindByEmail ?R db (EmailVO (email other)) =
       Inr \<lparr>ID = row_id other, Email = EmailVO (email other), Name = name other,
          PasswordHash = password_hash other, IsActive = True,
          CreatedAt = created_at other, UpdatedAt = updated_at other\<rparr>"
    using FindByEmail_ok[OF assms(1) assms(5) assms(6)] .
  show ?thesis
    unfolding UpdateUser_def fid using assms(4) assms(7) ne
    by (simp add: e fe)
qed

lemma UpdateUser_same_email_no_lookup:
  assumes "FindByID repo s uid = Inr user"
    and "NewEmail (To_LowerCase env) (update_Email dto) = Inr newEmail"
    and "Value newEmail = Value (Email user)"
  shows "UpdateUser env (repo\<lparr>FindByEmail := f\<rparr>) s uid dto = UpdateUser env repo s uid dto"
  using assms by (simp add: UpdateUser_def UpdateProfile_def)

text \<open>
  C8. For an active user \<open>r\<close> of a well-formed table and a name that is not empty and fits
  its column: when the new email normalises to the user's current email, \<open>UpdateUser\<close>
  succeeds; when it normalises to the email of another active user, with a different
  identifier, \<open>UpdateUser\<close> fails with \<open>ErrEmailAlreadyExists\<close> and leaves the table as it was;
  and, for any repository, when the normalised new email equals the current one the
  result does not depend on \<open>FindByEmail\<close>: the conflict check is not made.
\<close>

theorem UpdateUser_email_conflict:
  assumes "users_ok (To_LowerCase env) db" and "r \<in> set db" and "is_active r"
    and "update_Name dto \<noteq> []" and "length (update_Name dto) \<le> 100"
  shows
    "(NewEmail (To_LowerCase env) (update_Email dto) = Inr (EmailVO (email r)) \<longrightarrow>
        UpdateUser env (NewUserRepository env) db (row_id r) dto =
          (Inr \<lparr>dto_ID = row_id r, dto_Email = email r, dto_Name = update_Name dto,
                dto_IsActive = True, dto_CreatedAt = created_at r,
                dto_UpdatedAt = time_Now env\<rparr>,
           map (\<lambda>x. if row_id x = row_id r
                     then x\<lparr>email := email r, name := update_Name dto,
                            password_hash := password_hash r, is_active := True,
                            updated_at := time_Now env\<rparr>
                     else x) db))
     \<and> (\<forall>other. other \<in> set db \<and> is_active other \<and> row_id other \<noteq> row_id r
            \<and> NewEmail (To_LowerCase env) (update_Email dto) = Inr (EmailVO (email other)) \<longrightarrow>
          UpdateUser env (NewUserRepository env) db (row_id r) dto = (Inl ErrEmailAlreadyExists, db))
     \<and> (\<forall>repo s uid user newEmail f.
            FindByID repo s uid = Inr user
            \<and> NewEmail (To_LowerCase env) (update_Email dto) = Inr newEmail
            \<and> Value newEmail = Value (Email user) \<longrightarrow>
          UpdateUser env (repo\<lparr>FindByEmail := f\<rparr>) s uid (dto :: UpdateUserDTO)
            = UpdateUser env (repo :: 's UserRepository) s uid dto)"
proof -
  have a: "NewEmail (To_LowerCase env) (update_Email dto) = Inr (EmailVO (email r)) \<longrightarrow>
        UpdateUser env (NewUserRepository env) db (row_id r) dto =
          (Inr \<lparr>dto_ID = row_id r, dto_Email = email r, dto_Name = update_Name dto,
                dto_IsActive = True, dto_CreatedAt = created_at r,
                dto_UpdatedAt = time_Now env\<rparr>,
           map (\<lambda>x. if row_id x = row_id r
                     then x\<lparr>email := email r, name := update_Name dto,
                            password_hash := password_hash r, is_active := True,
                            updated_at := time_Now env\<rparr>
                     else x) db)"
    using UpdateUser_same_email[OF assms] by (rule impI)
  have b: "\<forall>other. other \<in> set db \<and> is_active other \<and> row_id other \<noteq> row_id r
            \<and> NewEmail (To_LowerCase env) (update_Email dto) = Inr (EmailVO (email other)) \<longrightarrow>
          UpdateUser env (NewUserRepository env) db (row_id r) dto = (Inl ErrEmailAlreadyExists, db)"
  proof (intro allI impI)
    fix other
    assume h: "other \<in> set db \<and> is_active other \<and> row_id other \<noteq> row_id r
            \<and> NewEmail (To_LowerCase env) (update_Email dto) = Inr (EmailVO (email other))"
    show "UpdateUser env (NewUserRepository env) db (row_id r) dto = (Inl ErrEmailAlreadyExists, db)"
      by (rule UpdateUser_other_email[OF assms(1-4) h[THEN conjunct1]
            h[THEN conjunct2, THEN conjunct1] h[THEN conjunct2, THEN conjunct2, THEN conjunct1]
            h[THEN conjunct2, THEN conjunct2, THEN conjunct2]])
  qed
  have c: "\<forall>repo s uid user newEmail f.
            FindByID repo s uid = Inr user
            \<and> NewEmail (To_LowerCase env) (update_Email dto) = Inr newEmail
            \<and> Value newEmail = Value (Email user) \<longrightarrow>
          UpdateUser env (repo\<lparr>FindByEmail := f\<rparr>) s uid (dto :: UpdateUserDTO)
            = UpdateUser env (repo :: 's UserRepository) s uid dto"
  proof (intro allI impI)
    fix repo :: "'s UserRepository" and s uid user newEmail f
    assume h: "FindByID repo s uid = Inr user
            \<and> NewEmail (To_LowerCase env) (update_Email dto) = Inr newEmail
            \<and> Value newEmail = Value (Email user)"
    show "UpdateUser env (repo\<lparr>FindByEmail := f\<rparr>) s uid dto = UpdateUser env repo s uid dto"
      by (rule UpdateUser_same_email_no_lookup[OF h[THEN conjunct1]
            h[THEN conjunct2, THEN conjunct1] h[THEN conjunct2, THEN conjunct2]])
  qed
  from a b c show ?thesis by (intro conjI)
qed


theorem UpdateUser_email_conflict_witness:
  "UpdateUser env0 (NewUserRepository env0) [alice, bob] 101
     \<lparr>update_Name = S ''New'', update_Email = S '' A@X.com ''\<rparr> =
     (Inr \<lparr>dto_ID = 101, dto_Email = S ''a@x.com'', dto_Name = S ''New'', dto_IsActive = True,
           dto_CreatedAt = 1000, dto_UpdatedAt = 1000\<rparr>,
      [alice\<lparr>name := S ''New''\<rparr>, bob])
   \<and> UpdateUser env0 (NewUserRepository env0) [alice, bob] 101
     \<lparr>update_Name = S ''New'', update_Email = S ''b@x.com''\<rparr> = (Inl ErrEmailAlreadyExists, [alice, bob])"
proof -
  let ?d1 = "\<lparr>update_Name = S ''New'', update_Email = S '' A@X.com ''\<rparr>"
  let ?d2 = "\<lparr>update_Name = S ''New'', update_Email = S ''b@x.com''\<rparr>"
  have ok: "users_ok (To_LowerCase env0) [alice, bob]"
    using NewEmail_a NewEmail_b by (simp add: users_ok_def env0_def alice_def bob_def S_def)
  have a: "alice \<in> set [alice, bob]" "is_active alice" by (simp_all add: alice_def)
  have n1: "update_Name ?d1 \<noteq> []" "length (update_Name ?d1) \<le> 100" by (simp_all add: S_def)
  have n2: "update_Name ?d2 \<noteq> []" "length (update_Name ?d2) \<le> 100" by (simp_all add: S_def)
  have e1: "NewEmail (To_LowerCase env0) (update_Email ?d1) = Inr (EmailVO (email alice))"
    using NewEmail_A by (simp add: env0_def alice_def)
  have e2: "bob \<in> set [alice, bob] \<and> is_active bob \<and> row_id bob \<noteq> row_id alice
     \<and> NewEmail (To_LowerCase env0) (update_Email ?d2) = Inr (EmailVO (email bob))"
    using NewEmail_b by (simp add: env0_def alice_def bob_def)
  have 1: "UpdateUser env0 (NewUserRepository env0) [alice, bob] (row_id alice) ?d1 =
          (Inr \<lparr>dto_ID = row_id alice, dto_Email = email alice, dto_Name = update_Name ?d1,
                dto_IsActive = True, dto_CreatedAt = created_at alice,
                dto_UpdatedAt = time_Now env0\<rparr>,
           map (\<lambda>x. if row_id x = row_id alice
                     then x\<lparr>email := email alice, name := update_Name ?d1,
                            password_hash := password_hash alice, is_active := True,
                            updated_at := time_Now env0\<rparr>
                     else x) [alice, bob])"
    using UpdateUser_email_conflict[OF ok a n1, THEN conjunct1] e1 by (rule mp)
  have 2: "UpdateUser env0 (NewUserRepository env0) [alice, bob] (row_id alice) ?d2
             = (Inl ErrEmailAlreadyExists, [alice, bob])"
    using UpdateUser_email_conflict[OF ok a n2, THEN conjunct2, THEN conjunct1, THEN spec, of bob] e2
    by (rule mp)
  have r: "row_id alice = 101" by (simp add: alice_def)
  have m: "(Inr \<lparr>dto_ID = row_id alice, dto_Email = email alice, dto_Name = update_Name ?d1,
                dto_IsActive = True, dto_CreatedAt = created_at alice,
                dto_UpdatedAt = time_Now env0\<rparr>,
           map (\<lambda>x. if row_id x = row_id alice
                     then x\<lparr>email := email alice, name := update_Name ?d1,
                            password_hash := password_hash alice, is_active := True,
                            updated_at := time_Now env0\<rparr>
                     else x) [alice, bob])
        = (Inr \<lparr>dto_ID = 101, dto_Email = S ''a@x.com'', dto_Name = S ''New'', dto_IsActive = True,
           dto_CreatedAt = 1000, dto_UpdatedAt = 1000\<rparr>,
      [alice\<lparr>name := S ''New''\<rparr>, bob])"
    by (simp add: alice_def bob_def env0_def)
  from 1[unfolded m, unfolded r] 2[unfolded r] show ?thesis by (rule conjI)
qed

end
